theory Spec2Isabelle
  imports Complex_Main "HOL-Library.AList"
begin

section \<open>Strings of the host language\<close>

text \<open>
  The timetable importer (\<^verbatim>\<open>src/utils/excelParser.ts\<close>, class \<^verbatim>\<open>ExcelParser\<close>) works on
  JavaScript strings. They are modelled as HOL strings whose characters are ASCII; the
  white space of \<^verbatim>\<open>trim()\<close> and of the regular-expression class \<^verbatim>\<open>\s\<close> is restricted to
  its ASCII members (tab, line feed, vertical tab, form feed, carriage return, space),
  and the case conversions act on the letters A-Z and a-z only.
\<close>

definition is_space :: "char \<Rightarrow> bool" where
  "is_space c = (c \<in> set [CHR 0x09, CHR 0x0A, CHR 0x0B, CHR 0x0C, CHR 0x0D, CHR '' ''])"

definition is_digit :: "char \<Rightarrow> bool" where
  "is_digit c = (c \<in> set ''0123456789'')"

definition is_upper :: "char \<Rightarrow> bool" where
  "is_upper c = (c \<in> set ''ABCDEFGHIJKLMNOPQRSTUVWXYZ'')"

definition is_lower :: "char \<Rightarrow> bool" where
  "is_lower c = (c \<in> set ''abcdefghijklmnopqrstuvwxyz'')"

definition lower_char :: "char \<Rightarrow> char" where
  "lower_char c = (if is_upper c then char_of (of_char c + (32::nat)) else c)"

definition upper_char :: "char \<Rightarrow> char" where
  "upper_char c = (if is_lower c then char_of (of_char c - (32::nat)) else c)"

definition toLowerCase :: "string \<Rightarrow> string" where
  "toLowerCase s = map lower_char s"

definition toUpperCase :: "string \<Rightarrow> string" where
  "toUpperCase s = map upper_char s"

definition trim :: "string \<Rightarrow> string" where
  "trim s = rev (dropWhile is_space (rev (dropWhile is_space s)))"

text \<open>\<^verbatim>\<open>s.includes(t)\<close>: \<open>t\<close> occurs in \<open>s\<close> as a contiguous substring.\<close>

fun startsWith :: "string \<Rightarrow> string \<Rightarrow> bool" where
  "startsWith s [] = True"
| "startsWith [] (y # ys) = False"
| "startsWith (x # xs) (y # ys) = (x = y \<and> startsWith xs ys)"

fun str_includes :: "string \<Rightarrow> string \<Rightarrow> bool" where
  "str_includes [] t = (t = [])"
| "str_includes (x # xs) t = (startsWith (x # xs) t \<or> str_includes xs t)"

text \<open>\<^verbatim>\<open>s.lastIndexOf(c)\<close> for a one-character needle: \<open>-1\<close> when \<open>c\<close> does not occur.\<close>

fun lastIndexOf_from :: "int \<Rightarrow> int \<Rightarrow> string \<Rightarrow> char \<Rightarrow> int" where
  "lastIndexOf_from i best [] c = best"
| "lastIndexOf_from i best (x # xs) c =
     lastIndexOf_from (i + 1) (if x = c then i else best) xs c"

definition lastIndexOf :: "string \<Rightarrow> char \<Rightarrow> int" where
  "lastIndexOf s c = lastIndexOf_from 0 (-1) s c"

text \<open>\<^verbatim>\<open>s.substring(0, k)\<close>: a negative end is taken as 0, one beyond the length as the length.\<close>

definition substring0 :: "string \<Rightarrow> int \<Rightarrow> string" where
  "substring0 s k = take (nat k) s"

text \<open>\<^verbatim>\<open>s.split('\n')\<close>: the pieces between the separators, empty pieces included.\<close>

fun split_char :: "char \<Rightarrow> string \<Rightarrow> string \<Rightarrow> string list" where
  "split_char sep cur [] = [rev cur]"
| "split_char sep cur (x # xs) =
     (if x = sep then rev cur # split_char sep [] xs else split_char sep (x # cur) xs)"

text \<open>
  \<^verbatim>\<open>s.split(/[,\s]+/)\<close>: the pieces between the maximal runs of separator characters;
  a run at the very start or end leaves an empty piece there.
\<close>

fun split_runs :: "(char \<Rightarrow> bool) \<Rightarrow> string \<Rightarrow> string \<Rightarrow> string list" where
  "split_runs P cur [] = [rev cur]"
| "split_runs P cur [x] = (if P x then [rev cur, []] else [rev (x # cur)])"
| "split_runs P cur (x # y # ys) =
     (if P x then (if P y then split_runs P cur (y # ys) else rev cur # split_runs P [] (y # ys))
      else split_runs P (x # cur) (y # ys))"

text \<open>\<^verbatim>\<open>s.replace(/\s+/g, ' ')\<close>: every maximal run of white space becomes one space.\<close>

function collapse_ws :: "string \<Rightarrow> string" where
  "collapse_ws [] = []"
| "collapse_ws (c # cs) =
     (if is_space c then CHR '' '' # collapse_ws (dropWhile is_space cs) else c # collapse_ws cs)"
  by pat_completeness auto
termination
  by (relation "measure length") (auto simp: length_dropWhile_le le_imp_less_Suc)

subsection \<open>Numbers and their decimal text\<close>

text \<open>
  A JavaScript number that holds an integer, or \<open>NaN\<close>. \<^verbatim>\<open>parseInt\<close> reads the leading
  decimal digits of its argument and gives \<open>NaN\<close> when there is none (the arguments here
  are capture groups, which carry neither white space, sign nor radix prefix).
\<close>

datatype jsnum = Num int | NaN

definition digit_val :: "char \<Rightarrow> int" where
  "digit_val c = int (of_char c - (48::nat))"

definition parseInt :: "string \<Rightarrow> jsnum" where
  "parseInt s =
     (let ds = takeWhile is_digit s
      in if ds = [] then NaN else Num (foldl (\<lambda>a c. 10 * a + digit_val c) 0 ds))"

definition digit_char :: "nat \<Rightarrow> char" where
  "digit_char d = char_of (48 + d)"

fun nat_digits :: "nat \<Rightarrow> string" where
  "nat_digits n = (if n < 10 then [digit_char n] else nat_digits (n div 10) @ [digit_char (n mod 10)])"

definition int_toString :: "int \<Rightarrow> string" where
  "int_toString i = (if i < 0 then CHR ''-'' # nat_digits (nat (- i)) else nat_digits (nat i))"

fun num_toString :: "jsnum \<Rightarrow> string" where
  "num_toString (Num i) = int_toString i"
| "num_toString NaN = ''NaN''"

text \<open>\<^verbatim>\<open>s.padStart(n, '0')\<close>.\<close>

definition padStart0 :: "nat \<Rightarrow> string \<Rightarrow> string" where
  "padStart0 n s = replicate (n - length s) CHR ''0'' @ s"

section \<open>Regular expressions\<close>

text \<open>
  The patterns of the source are kept as terms of a small regular-expression type and run
  by a backtracking matcher. \<open>rmatch n r (c, s)\<close> lists, in the order in which a
  backtracking engine tries them, every way in which \<open>r\<close> matches a prefix of \<open>s\<close>: the
  captures after the match and the text left over. \<open>n\<close> is the length of the whole
  input, for the anchor \<^verbatim>\<open>^\<close>. A greedy star tries one more iteration first, a lazy star
  tries to stop first; an iteration that consumes nothing is abandoned, as in ECMAScript.
\<close>

datatype regex =
    Sym "char \<Rightarrow> bool"
  | Eps
  | Bol
  | Eol
  | Seq regex regex
  | Alt regex regex
  | Star regex
  | LazyStar regex
  | Group nat regex

type_synonym caps = "nat \<Rightarrow> string option"

fun rmatch :: "nat \<Rightarrow> regex \<Rightarrow> caps \<times> string \<Rightarrow> (caps \<times> string) list" where
  "rmatch n (Sym P) (c, s) = (case s of [] \<Rightarrow> [] | x # xs \<Rightarrow> if P x then [(c, xs)] else [])"
| "rmatch n Eps (c, s) = [(c, s)]"
| "rmatch n Bol (c, s) = (if length s = n then [(c, s)] else [])"
| "rmatch n Eol (c, s) = (if s = [] then [(c, s)] else [])"
| "rmatch n (Seq r1 r2) (c, s) = concat (map (rmatch n r2) (rmatch n r1 (c, s)))"
| "rmatch n (Alt r1 r2) (c, s) = rmatch n r1 (c, s) @ rmatch n r2 (c, s)"
| "rmatch n (Star r) (c, s) =
     concat (map (\<lambda>(c', s'). if length s' < length s then rmatch n (Star r) (c', s') else [])
                 (rmatch n r (c, s))) @ [(c, s)]"
| "rmatch n (LazyStar r) (c, s) =
     (c, s) # concat (map (\<lambda>(c', s'). if length s' < length s then rmatch n (LazyStar r) (c', s') else [])
                          (rmatch n r (c, s)))"
| "rmatch n (Group i r) (c, s) =
     map (\<lambda>(c', s'). (c'(i \<mapsto> take (length s - length s') s), s')) (rmatch n r (c, s))"

text \<open>The derived forms \<^verbatim>\<open>r?\<close>, \<^verbatim>\<open>r+\<close>, \<^verbatim>\<open>r+?\<close> and a literal character.\<close>

definition Opt :: "regex \<Rightarrow> regex" where
  "Opt r = Alt r Eps"

definition Plus :: "regex \<Rightarrow> regex" where
  "Plus r = Seq r (Star r)"

definition LazyPlus :: "regex \<Rightarrow> regex" where
  "LazyPlus r = Seq r (LazyStar r)"

definition Lit :: "char \<Rightarrow> regex" where
  "Lit a = Sym (\<lambda>x. x = a)"

text \<open>Under the flag \<^verbatim>\<open>i\<close> a character matches when it agrees up to letter case.\<close>

definition LitI :: "char \<Rightarrow> regex" where
  "LitI a = Sym (\<lambda>x. upper_char x = upper_char a)"

text \<open>A sequence of patterns, and a literal text under the flag \<^verbatim>\<open>i\<close>.\<close>

fun seqs :: "regex list \<Rightarrow> regex" where
  "seqs [] = Eps"
| "seqs [r] = r"
| "seqs (r # rs) = Seq r (seqs rs)"

definition StrI :: "string \<Rightarrow> regex" where
  "StrI s = seqs (map LitI s)"

definition Digit :: regex where
  "Digit = Sym is_digit"

definition Space :: regex where
  "Space = Sym is_space"

text \<open>\<^verbatim>\<open>.\<close> matches any character but a line terminator.\<close>

definition Dot :: regex where
  "Dot = Sym (\<lambda>x. x \<noteq> CHR 0x0A \<and> x \<noteq> CHR 0x0D)"

text \<open>
  The result of \<^verbatim>\<open>s.match(r)\<close> for a pattern without the flag \<^verbatim>\<open>g\<close>: the leftmost start
  at which the pattern matches, and there the first match in backtracking order.
\<close>

record rx_match =
  index :: nat
  matched :: string
  captures :: caps

fun rsearch :: "nat \<Rightarrow> regex \<Rightarrow> nat \<Rightarrow> string \<Rightarrow> rx_match option" where
  "rsearch n r k [] =
     (case rmatch n r (Map.empty, []) of
        [] \<Rightarrow> None
      | (c, s') # _ \<Rightarrow> Some \<lparr>index = k, matched = [], captures = c\<rparr>)"
| "rsearch n r k (x # xs) =
     (case rmatch n r (Map.empty, x # xs) of
        [] \<Rightarrow> rsearch n r (Suc k) xs
      | (c, s') # _ \<Rightarrow>
          Some \<lparr>index = k, matched = take (length (x # xs) - length s') (x # xs), captures = c\<rparr>)"

definition str_match :: "regex \<Rightarrow> string \<Rightarrow> rx_match option" where
  "str_match r s = rsearch (length s) r 0 s"

text \<open>A capture group that did not take part in the match reads as \<^verbatim>\<open>undefined\<close>.\<close>

definition grp :: "rx_match \<Rightarrow> nat \<Rightarrow> string option" where
  "grp m i = captures m i"

text \<open>
  \<^verbatim>\<open>s.replace(r, f)\<close> for a pattern without the flag \<^verbatim>\<open>g\<close>: the first match is replaced
  by the text that \<open>f\<close> builds from it; without a match the string is unchanged.
\<close>

definition replace_first :: "regex \<Rightarrow> (rx_match \<Rightarrow> string) \<Rightarrow> string \<Rightarrow> string" where
  "replace_first r f s =
     (case str_match r s of
        None \<Rightarrow> s
      | Some m \<Rightarrow> take (index m) s @ f m @ drop (index m + length (matched m)) s)"

section \<open>TimeNormalizer\<close>

text \<open>
  \<^verbatim>\<open>TIME_PATTERNS\<close>, in the order of the source:
  \<^verbatim>\<open>/^(\d{1,2}):(\d{2})$/\<close>, \<^verbatim>\<open>/^(\d{1,2})\.(\d{2})$/\<close>,
  \<^verbatim>\<open>/^(\d{1,2}):(\d{2})\s*(AM|PM)$/i\<close>, \<^verbatim>\<open>/^(\d{1,2})\s*(AM|PM)$/i\<close>.
\<close>

definition AmPm :: regex where
  "AmPm = Alt (StrI ''AM'') (StrI ''PM'')"

definition TIME_PATTERNS :: "regex list" where
  "TIME_PATTERNS =
     [seqs [Bol, Group 1 (Seq Digit (Opt Digit)), Lit CHR '':'', Group 2 (Seq Digit Digit), Eol],
      seqs [Bol, Group 1 (Seq Digit (Opt Digit)), Lit CHR ''.'', Group 2 (Seq Digit Digit), Eol],
      seqs [Bol, Group 1 (Seq Digit (Opt Digit)), Lit CHR '':'', Group 2 (Seq Digit Digit),
            Star Space, Group 3 AmPm, Eol],
      seqs [Bol, Group 1 (Seq Digit (Opt Digit)), Star Space, Group 2 AmPm, Eol]]"

text \<open>
  \<^verbatim>\<open>.replace(/[^\d:.\sAPM]/gi, '')\<close> deletes every character that is not a digit, a colon,
  a period, white space or one of the letters A, P, M in either case.
\<close>

definition time_char :: "char \<Rightarrow> bool" where
  "time_char c = (is_digit c \<or> c = CHR '':'' \<or> c = CHR ''.'' \<or> is_space c
                  \<or> upper_char c \<in> set ''APM'')"

definition clean_time :: "string \<Rightarrow> string" where
  "clean_time timeStr = filter time_char (collapse_ws (trim timeStr))"

text \<open>
  The body of the loop over \<^verbatim>\<open>TIME_PATTERNS\<close> for a pattern that matched. \<^verbatim>\<open>match[2]\<close>
  is read as the minutes whenever it is a non-empty string, and \<^verbatim>\<open>match[3]\<close> as the
  AM/PM marker.
\<close>

fun num_add :: "jsnum \<Rightarrow> int \<Rightarrow> jsnum" where
  "num_add (Num i) k = Num (i + k)"
| "num_add NaN k = NaN"

definition time_of_match :: "rx_match \<Rightarrow> string" where
  "time_of_match m =
     (let hours = parseInt (case grp m 1 of Some g \<Rightarrow> g | None \<Rightarrow> ''undefined'');
          minutes = (case grp m 2 of
                       None \<Rightarrow> Num 0
                     | Some g \<Rightarrow> if g = [] then Num 0 else parseInt g);
          ampm = map_option toUpperCase (grp m 3);
          hours = (if ampm = Some ''PM'' \<and> hours \<noteq> Num 12 then num_add hours 12 else hours);
          hours = (if ampm = Some ''AM'' \<and> hours = Num 12 then Num 0 else hours)
      in padStart0 2 (num_toString hours) @ '':'' @ padStart0 2 (num_toString minutes))"

fun first_pattern :: "regex list \<Rightarrow> string \<Rightarrow> rx_match option" where
  "first_pattern [] s = None"
| "first_pattern (p # ps) s =
     (case str_match p s of Some m \<Rightarrow> Some m | None \<Rightarrow> first_pattern ps s)"

definition normalizeTime :: "string \<Rightarrow> string option" where
  "normalizeTime timeStr =
     (let cleaned = clean_time timeStr
      in case first_pattern TIME_PATTERNS cleaned of
           Some m \<Rightarrow> Some (time_of_match m)
         | None \<Rightarrow>
             (case str_match (seqs [Bol, Group 1 (Seq Digit (Opt Digit)), Eol]) cleaned of
                Some m \<Rightarrow>
                  (case parseInt (case grp m 1 of Some g \<Rightarrow> g | None \<Rightarrow> ''undefined'') of
                     Num hours \<Rightarrow>
                       if hours \<ge> 0 \<and> hours \<le> 23
                       then Some (padStart0 2 (int_toString hours) @ '':00'')
                       else None
                   | NaN \<Rightarrow> None)
              | None \<Rightarrow> None))"

section \<open>ConfidenceScorer, line level\<close>

datatype confidence_level = High | Medium | Low

text \<open>A string is truthy when it is not empty.\<close>

definition calculateLineConfidence ::
  "string \<Rightarrow> string \<Rightarrow> string \<Rightarrow> string \<Rightarrow> string list \<Rightarrow> confidence_level" where
  "calculateLineConfidence subject type room lecturer groups =
     (let score = (0::int);
          score = (if subject \<noteq> [] \<and> length subject > 3 then score + 2 else score);
          score = (if type \<noteq> [] then score + 1 else score);
          score = (if room \<noteq> [] then score + 1 else score);
          score = (if lecturer \<noteq> [] \<and> length lecturer > 3 then score + 1 else score);
          score = (if length groups > 0 then score + 1 else score)
      in if score \<ge> 5 then High else if score \<ge> 3 then Medium else Low)"

section \<open>Data model\<close>

text \<open>
  \<^verbatim>\<open>Session\<close> of \<^verbatim>\<open>src/types/index.ts\<close>. The field \<^verbatim>\<open>id\<close> is named \<open>id_token\<close> here.
  \<^verbatim>\<open>attendance_marked\<close> is one of four marks or \<^verbatim>\<open>null\<close>.
\<close>

datatype attendance = Present | Absent | Off | Mixed

record Session =
  id_token :: string
  day :: string
  start_time :: string
  duration_slots :: int
  subject_name :: string
  session_type :: string
  room :: string
  lecturer :: string
  groups :: "string list"
  "notes" :: string
  attendance_marked :: "attendance option"

section \<open>LineParser\<close>

record ParsedCell =
  subject_name :: string
  session_type :: string
  room_or_code :: string
  lecturer :: string
  groups :: "string list"
  raw_text :: string
  confidence :: confidence_level

text \<open>The patterns of \<^verbatim>\<open>parseSessionLine\<close>, each under the literal it stands for.\<close>

definition not_in :: "string \<Rightarrow> regex" where
  "not_in cs = Sym (\<lambda>x. x \<notin> set cs)"

text \<open>\<^verbatim>\<open>/\(([^)]+)\)\s*$/\<close>\<close>

definition rx_groups :: regex where
  "rx_groups = seqs [Lit CHR ''('', Group 1 (Plus (not_in '')'')), Lit CHR '')'', Star Space, Eol]"

text \<open>\<^verbatim>\<open>/:\s*([^:()]+?)(?:\s*:\s*)?$/\<close>\<close>

definition rx_lecturer :: regex where
  "rx_lecturer =
     seqs [Lit CHR '':'', Star Space, Group 1 (LazyPlus (not_in '':()'')),
           Opt (seqs [Star Space, Lit CHR '':'', Star Space]), Eol]"

text \<open>\<^verbatim>\<open>/^(Dr\.|Mr\.|Ms\.|Prof\.)\s*/i\<close>\<close>

definition rx_title :: regex where
  "rx_title =
     seqs [Bol, Group 1 (Alt (StrI ''Dr.'') (Alt (StrI ''Mr.'') (Alt (StrI ''Ms.'') (StrI ''Prof.'')))),
           Star Space]"

text \<open>\<^verbatim>\<open>/:\s*\(([^)]+)\)/\<close>; the pattern of the later removal, \<^verbatim>\<open>/:\s*\([^)]+\)/\<close>, is the same
  without the capture.\<close>

definition rx_room :: regex where
  "rx_room = seqs [Lit CHR '':'', Star Space, Lit CHR ''('', Group 1 (Plus (not_in '')'')), Lit CHR '')'']"

definition rx_room_removal :: regex where
  "rx_room_removal = seqs [Lit CHR '':'', Star Space, Lit CHR ''('', Plus (not_in '')''), Lit CHR '')'']"

text \<open>\<^verbatim>\<open>/^(Room\s*)?/i\<close>\<close>

definition rx_room_prefix :: regex where
  "rx_room_prefix = seqs [Bol, Opt (Group 1 (seqs [StrI ''Room'', Star Space]))]"

text \<open>\<^verbatim>\<open>/^(.+?)\s*(?:\(([PLTFpr]+)\))?\s*:?$/i\<close>: under the flag \<^verbatim>\<open>i\<close> the class
  \<^verbatim>\<open>[PLTFpr]\<close> holds the letters P, L, T, F, R in either case.\<close>

definition rx_subject :: regex where
  "rx_subject =
     seqs [Bol, Group 1 (LazyPlus Dot), Star Space,
           Opt (seqs [Lit CHR ''('', Group 2 (Plus (Sym (\<lambda>x. upper_char x \<in> set ''PLTFPR''))), Lit CHR '')'']),
           Star Space, Opt (Lit CHR '':''), Eol]"

text \<open>\<^verbatim>\<open>/^(.*?)\s*$/\<close>\<close>

definition rx_trailing :: regex where
  "rx_trailing = seqs [Bol, Group 1 (LazyStar Dot), Star Space, Eol]"

text \<open>\<^verbatim>\<open>/:\s*$/\<close>\<close>

definition rx_end_colon :: regex where
  "rx_end_colon = seqs [Lit CHR '':'', Star Space, Eol]"

text \<open>A replacement text \<^verbatim>\<open>$1\<close> is the first capture, empty when the group took no part.\<close>

definition dollar1 :: "rx_match \<Rightarrow> string" where
  "dollar1 m = (case grp m 1 of Some g \<Rightarrow> g | None \<Rightarrow> [])"

text \<open>
  \<^verbatim>\<open>parseSessionLine\<close>. The four extraction steps each read \<open>line\<close> and may shorten it.
  Nothing in the body of the \<^verbatim>\<open>try\<close> can throw, so the only \<^verbatim>\<open>null\<close> result is the one for
  an empty subject.
\<close>

definition extract_groups :: "string \<Rightarrow> string list \<times> string" where
  "extract_groups line =
     (case str_match rx_groups line of
        None \<Rightarrow> ([], line)
      | Some groupsMatch \<Rightarrow>
          (let groupsStr = dollar1 groupsMatch
           in (filter (\<lambda>g. g \<noteq> [] \<and> length g > 0)
                 (map trim (split_runs (\<lambda>x. x = CHR '','' \<or> is_space x) [] groupsStr)),
               trim (substring0 line (lastIndexOf line CHR ''('')))))"

definition extract_lecturer :: "string \<Rightarrow> string \<times> string" where
  "extract_lecturer line =
     (case str_match rx_lecturer line of
        None \<Rightarrow> ([], line)
      | Some lecturerMatch \<Rightarrow>
          (collapse_ws (replace_first rx_title (\<lambda>m. dollar1 m @ '' '') (trim (dollar1 lecturerMatch))),
           trim (substring0 line (lastIndexOf line CHR '':''))))"

definition extract_room :: "string \<Rightarrow> string \<times> string" where
  "extract_room line =
     (case str_match rx_room line of
        None \<Rightarrow> ([], line)
      | Some roomMatch \<Rightarrow>
          (collapse_ws (replace_first rx_room_prefix (\<lambda>m. []) (trim (dollar1 roomMatch))),
           trim (replace_first rx_room_removal (\<lambda>m. []) line)))"

definition extract_subject :: "string \<Rightarrow> string \<times> string" where
  "extract_subject line =
     (case str_match rx_subject line of
        Some subjectMatch \<Rightarrow>
          (replace_first rx_trailing dollar1 (collapse_ws (trim (dollar1 subjectMatch))),
           toUpperCase (case grp subjectMatch 2 of
                          None \<Rightarrow> []
                        | Some g \<Rightarrow> g))
      | None \<Rightarrow>
          (collapse_ws (trim (replace_first rx_end_colon (\<lambda>m. []) line)), []))"

definition parseSessionLine :: "string \<Rightarrow> ParsedCell option" where
  "parseSessionLine line0 =
     (let (groups, line) = extract_groups line0;
          (lecturer, line) = extract_lecturer line;
          (room_or_code, line) = extract_room line;
          (subject_name, session_type) = extract_subject line
      in if subject_name = [] then None
         else Some \<lparr>subject_name = subject_name, session_type = session_type,
                    room_or_code = room_or_code, lecturer = lecturer, groups = groups,
                    raw_text = line,
                    confidence = calculateLineConfidence subject_name session_type room_or_code
                                   lecturer groups\<rparr>)"

section \<open>Workbooks\<close>

text \<open>
  The decoder's workbook: the sheet names in order and the sheets by name. A sheet has
  its decoded range \<^verbatim>\<open>!ref\<close> (start row, start column, end row, end column; absent for
  a sheet without one) and its cells by row and column. A cell is absent, or carries the
  value \<^verbatim>\<open>v\<close>: a text, a number (integers only in this model) or a truth value.
\<close>

datatype cell_value = VStr string | VNum int | VBool bool

fun truthy :: "cell_value \<Rightarrow> bool" where
  "truthy (VStr s) = (s \<noteq> [])"
| "truthy (VNum i) = (i \<noteq> 0)"
| "truthy (VBool b) = b"

fun value_toString :: "cell_value \<Rightarrow> string" where
  "value_toString (VStr s) = s"
| "value_toString (VNum i) = int_toString i"
| "value_toString (VBool b) = (if b then ''true'' else ''false'')"

record range =
  s_r :: int
  s_c :: int
  e_r :: int
  e_c :: int

record worksheet =
  ref :: "range option"
  cell :: "int \<Rightarrow> int \<Rightarrow> cell_value option"

record workbook =
  SheetNames :: "string list"
  Sheets :: "string \<rightharpoonup> worksheet"

text \<open>\<^verbatim>\<open>XLSX.utils.decode_range(worksheet['!ref'] || 'A1:A1')\<close>\<close>

definition sheet_range :: "worksheet \<Rightarrow> range" where
  "sheet_range ws =
     (case ref ws of
        None \<Rightarrow> \<lparr>s_r = 0, s_c = 0, e_r = 0, e_c = 0\<rparr>
      | Some rg \<Rightarrow> rg)"

definition DAYS :: "string list" where
  "DAYS = [''Monday'', ''Tuesday'', ''Wednesday'', ''Thursday'', ''Friday'', ''Saturday'', ''Sunday'']"

text \<open>
  The guard \<^verbatim>\<open>cell && cell.v\<close> and the text \<^verbatim>\<open>cell.v.toString().toLowerCase().trim()\<close>
  that both scans read under it.
\<close>

definition cell_text :: "worksheet \<Rightarrow> int \<Rightarrow> int \<Rightarrow> string option" where
  "cell_text ws row col =
     (case cell ws row col of
        None \<Rightarrow> None
      | Some v \<Rightarrow> if truthy v then Some (trim (toLowerCase (value_toString v))) else None)"

datatype error = StructureError | TypeError | IdError

section \<open>SheetLocator\<close>

text \<open>
  \<^verbatim>\<open>findTimetableSheet\<close>. For each row of the window, \<open>hasTime\<close> and \<open>dayCount\<close> start
  afresh; a cell adds one to \<open>dayCount\<close> when its text contains some weekday name (the
  loop over \<^verbatim>\<open>DAYS\<close> stops at the first that it contains).
\<close>

definition locator_cell :: "worksheet \<Rightarrow> int \<Rightarrow> int \<Rightarrow> bool \<times> int \<Rightarrow> bool \<times> int" where
  "locator_cell ws row col = (\<lambda>(hasTime, dayCount).
     (case cell_text ws row col of
        None \<Rightarrow> (hasTime, dayCount)
      | Some cellText \<Rightarrow>
          (if str_includes cellText ''time'' then True else hasTime,
           if list_ex (\<lambda>day. str_includes cellText (toLowerCase day)) DAYS
           then dayCount + 1 else dayCount)))"

definition locator_row :: "worksheet \<Rightarrow> int \<Rightarrow> bool" where
  "locator_row ws row =
     (let rg = sheet_range ws;
          (hasTime, dayCount) = fold (locator_cell ws row) [s_c rg .. min (e_c rg) (s_c rg + 10)] (False, 0)
      in hasTime \<and> dayCount \<ge> 3)"

definition sheet_matches :: "worksheet \<Rightarrow> bool" where
  "sheet_matches ws =
     (let rg = sheet_range ws
      in list_ex (locator_row ws) [s_r rg .. min (e_r rg) (s_r rg + 10)])"

text \<open>
  The loop over the sheet names. Reading \<^verbatim>\<open>!ref\<close> of a sheet that the workbook does not
  hold is a \<^verbatim>\<open>TypeError\<close>. \<open>Inr None\<close> is the value \<^verbatim>\<open>undefined\<close> that
  \<^verbatim>\<open>workbook.SheetNames[0]\<close> gives for a workbook without sheets.
\<close>

fun locate_in :: "(string \<rightharpoonup> worksheet) \<Rightarrow> string list \<Rightarrow> error + string option" where
  "locate_in sheets [] = Inr None"
| "locate_in sheets (sheetName # names) =
     (case sheets sheetName of
        None \<Rightarrow> Inl TypeError
      | Some ws \<Rightarrow> if sheet_matches ws then Inr (Some sheetName) else locate_in sheets names)"

definition findTimetableSheet :: "workbook \<Rightarrow> error + string option" where
  "findTimetableSheet wb =
     (case locate_in (Sheets wb) (SheetNames wb) of
        Inl e \<Rightarrow> Inl e
      | Inr (Some sheetName) \<Rightarrow> Inr (Some sheetName)
      | Inr None \<Rightarrow> Inr (case SheetNames wb of [] \<Rightarrow> None | first # _ \<Rightarrow> Some first))"

section \<open>GridExtractor\<close>

subsection \<open>The header scan\<close>

text \<open>
  The three variables of the header scan. \<open>dayCols\<close> is an object used as a dictionary:
  its entries are read back in the order in which their keys were first written, and
  writing to a key that is there keeps its place.
\<close>

record header_state =
  headerRow :: int
  timeCol :: int
  dayCols :: "(string \<times> int) list"

definition scan_cell :: "worksheet \<Rightarrow> int \<Rightarrow> int \<Rightarrow> header_state \<Rightarrow> header_state" where
  "scan_cell ws row col st =
     (case cell_text ws row col of
        None \<Rightarrow> st
      | Some cellText \<Rightarrow>
          fold (\<lambda>day st. if str_includes cellText (toLowerCase day)
                          then st\<lparr>dayCols := AList.update day col (dayCols st)\<rparr> else st)
               DAYS
               (if str_includes cellText ''time'' then st\<lparr>headerRow := row, timeCol := col\<rparr> else st))"

fun scan_rows :: "worksheet \<Rightarrow> int list \<Rightarrow> int list \<Rightarrow> header_state \<Rightarrow> header_state" where
  "scan_rows ws cols [] st = st"
| "scan_rows ws cols (row # rows) st =
     (let st' = fold (scan_cell ws row) cols st
      in if headerRow st' \<noteq> -1 \<and> int (length (dayCols st')) \<ge> 3 then st'
         else scan_rows ws cols rows st')"

definition find_header :: "worksheet \<Rightarrow> header_state" where
  "find_header ws =
     (let rg = sheet_range ws
      in scan_rows ws [s_c rg .. e_c rg] [s_r rg .. min (e_r rg) (s_r rg + 10)]
           \<lparr>headerRow = -1, timeCol = -1, dayCols = []\<rparr>)"

subsection \<open>Cells of sessions\<close>

text \<open>
  \<^verbatim>\<open>parseSessionCell\<close>. The identifier of a session comes from \<^verbatim>\<open>uuidv4()\<close>, a generator
  outside this code: \<open>uuidv4 k\<close> is what its call number \<open>k\<close> of the run returns,
  \<open>None\<close> when that call throws. The calls made so far are counted along the way.
  A throw leaves the function at once, with the sessions gathered so far.
\<close>

fun session_lines ::
  "(nat \<Rightarrow> string option) \<Rightarrow> string \<Rightarrow> string \<Rightarrow> string list \<Rightarrow> nat \<times> Session list
     \<Rightarrow> nat \<times> (error + Session list)" where
  "session_lines uuidv4 d startTime [] (k, acc) = (k, Inr acc)"
| "session_lines uuidv4 d startTime (line # lines) (k, acc) =
     (case parseSessionLine (trim line) of
        None \<Rightarrow> session_lines uuidv4 d startTime lines (k, acc)
      | Some parsed \<Rightarrow>
          (case uuidv4 k of
             None \<Rightarrow> (Suc k, Inl IdError)
           | Some i \<Rightarrow>
               session_lines uuidv4 d startTime lines
                 (Suc k,
                  acc @ [\<lparr>id_token = i, day = d, start_time = startTime, duration_slots = 1,
                           Session.subject_name = ParsedCell.subject_name parsed,
                           Session.session_type = ParsedCell.session_type parsed,
                           room = room_or_code parsed,
                           Session.lecturer = ParsedCell.lecturer parsed,
                           Session.groups = ParsedCell.groups parsed,
                           notes = [], attendance_marked = None\<rparr>])))"

definition parseSessionCell ::
  "(nat \<Rightarrow> string option) \<Rightarrow> nat \<Rightarrow> string \<Rightarrow> string \<Rightarrow> string \<Rightarrow> nat \<times> (error + Session list)" where
  "parseSessionCell uuidv4 k cellContent d startTime =
     session_lines uuidv4 d startTime
       (filter (\<lambda>line. trim line \<noteq> []) (split_char CHR 0x0A [] cellContent)) (k, [])"

subsection \<open>The walk over the data rows\<close>

record UnparsedCell =
  row :: int
  col :: int
  content :: string

text \<open>
  The state of the walk: the number of calls of \<^verbatim>\<open>uuidv4\<close> made so far, and the arrays
  \<^verbatim>\<open>sessions\<close> and \<^verbatim>\<open>unparsedCells\<close>. \<open>day_cell\<close> is the body of the loop over
  \<^verbatim>\<open>Object.entries(dayCols)\<close> with its \<^verbatim>\<open>try\<close>/\<^verbatim>\<open>catch\<close>, \<open>walk_row\<close> the body of the
  loop over the rows below the header. (The array \<^verbatim>\<open>timeslots\<close> is filled but never read.)
\<close>

type_synonym walk_state = "nat \<times> Session list \<times> UnparsedCell list"

definition day_cell ::
  "(nat \<Rightarrow> string option) \<Rightarrow> worksheet \<Rightarrow> int \<Rightarrow> string \<Rightarrow> string \<times> int \<Rightarrow> walk_state \<Rightarrow> walk_state" where
  "day_cell uuidv4 ws r timeStr = (\<lambda>(d, dayCol) (k, acc, unparsed).
     (case cell ws r dayCol of
        None \<Rightarrow> (k, acc, unparsed)
      | Some v \<Rightarrow>
          if \<not> truthy v then (k, acc, unparsed)
          else
            (let cellContent = trim (value_toString v)
             in if cellContent = [] then (k, acc, unparsed)
                else
                  (case parseSessionCell uuidv4 k cellContent d timeStr of
                     (k', Inr parsedSessions) \<Rightarrow> (k', acc @ parsedSessions, unparsed)
                   | (k', Inl e) \<Rightarrow>
                       (k', acc,
                        unparsed @ [\<lparr>row = r + 1, col = dayCol + 1, content = cellContent\<rparr>])))))"

definition walk_row ::
  "(nat \<Rightarrow> string option) \<Rightarrow> worksheet \<Rightarrow> int \<Rightarrow> (string \<times> int) list \<Rightarrow> int \<Rightarrow> walk_state \<Rightarrow> walk_state" where
  "walk_row uuidv4 ws tc dcs r st =
     (case cell ws r tc of
        None \<Rightarrow> st
      | Some v \<Rightarrow>
          if \<not> truthy v then st
          else
            (case normalizeTime (value_toString v) of
               None \<Rightarrow> st
             | Some timeStr \<Rightarrow>
                 if timeStr = [] then st
                 else fold (day_cell uuidv4 ws r timeStr) dcs st))"

section \<open>ConfidenceScorer, import level\<close>

text \<open>
  \<^verbatim>\<open>calculateConfidence\<close>. The quotient of the two counts is taken in the reals; the
  counts of a sheet are far below the size at which a double would round the quotient
  across one of the two thresholds.
\<close>

definition calculateConfidence :: "int \<Rightarrow> int \<Rightarrow> confidence_level" where
  "calculateConfidence parsed tot =
     (let ratio = real_of_int parsed / real_of_int (max tot 1)
      in if ratio \<ge> 0.8 then High else if ratio \<ge> 0.6 then Medium else Low)"

section \<open>PreviewAssembler\<close>

record Metadata =
  totalCells :: int
  parsedCells :: int
  confidence :: confidence_level

record ImportPreview =
  sessions :: "Session list"
  unparsedCells :: "UnparsedCell list"
  metadata :: Metadata

text \<open>
  \<^verbatim>\<open>parseWorksheet\<close>: the header scan, the check of its result, the walk over the rows
  \<open>headerRow + 1\<close> to the last row of the range, and the counts.
\<close>

definition parseWorksheet :: "(nat \<Rightarrow> string option) \<Rightarrow> worksheet \<Rightarrow> error + ImportPreview" where
  "parseWorksheet uuidv4 ws =
     (let rg = sheet_range ws;
          h = find_header ws
      in if headerRow h = -1 \<or> timeCol h = -1 then Inl StructureError
         else
           (let (k, sess, unparsed) =
                  fold (walk_row uuidv4 ws (timeCol h) (dayCols h))
                       [headerRow h + 1 .. e_r rg] (0, [], []);
                total = (e_r rg - headerRow h) * int (length (dayCols h));
                parsed = total - int (length unparsed)
            in Inr \<lparr>sessions = sess, unparsedCells = unparsed,
                     metadata = \<lparr>totalCells = total, parsedCells = parsed,
                                  confidence = calculateConfidence parsed total\<rparr>\<rparr>))"

section \<open>Reference notions of the specification\<close>

text \<open>
  The canonical form of a time as the specification words it: two digits, a colon, two
  digits, the hour at most 23 and the minutes at most 59.
\<close>

fun canonical_time :: "string \<Rightarrow> bool" where
  "canonical_time [h1, h2, sep, m1, m2] =
     (is_digit h1 \<and> is_digit h2 \<and> sep = CHR '':'' \<and> is_digit m1 \<and> is_digit m2
      \<and> 10 * digit_val h1 + digit_val h2 \<le> 23 \<and> 10 * digit_val m1 + digit_val m2 \<le> 59)"
| "canonical_time s = False"

text \<open>A cell that the header scan takes for the time label.\<close>

definition time_cell :: "worksheet \<Rightarrow> int \<Rightarrow> int \<Rightarrow> bool" where
  "time_cell ws r c =
     (case cell_text ws r c of None \<Rightarrow> False | Some cellText \<Rightarrow> str_includes cellText ''time'')"

text \<open>
  Some cell in the rows of the header scan (the first eleven rows of the range, all the
  columns of the range) is a time label.
\<close>

definition header_window_has_time :: "worksheet \<Rightarrow> bool" where
  "header_window_has_time ws =
     (let rg = sheet_range ws
      in list_ex (\<lambda>r. list_ex (time_cell ws r) [s_c rg .. e_c rg])
                 [s_r rg .. min (e_r rg) (s_r rg + 10)])"

text \<open>A cell whose text contains a weekday name.\<close>

definition weekday_cell :: "worksheet \<Rightarrow> int \<Rightarrow> int \<Rightarrow> bool" where
  "weekday_cell ws r c =
     (case cell_text ws r c of
        None \<Rightarrow> False
      | Some cellText \<Rightarrow> list_ex (\<lambda>day. str_includes cellText (toLowerCase day)) DAYS)"

text \<open>
  A row of the locator's window (the first eleven rows and the first eleven columns of
  the range) qualifies when it holds a time label and at least three cells with a weekday
  name; a sheet qualifies when one of these rows does.
\<close>

definition row_qualifies :: "worksheet \<Rightarrow> int \<Rightarrow> bool" where
  "row_qualifies ws r =
     (let rg = sheet_range ws;
          cols = [s_c rg .. min (e_c rg) (s_c rg + 10)]
      in list_ex (time_cell ws r) cols \<and> 3 \<le> length (filter (weekday_cell ws r) cols))"

definition sheet_qualifies :: "worksheet \<Rightarrow> bool" where
  "sheet_qualifies ws =
     (let rg = sheet_range ws
      in list_ex (row_qualifies ws) [s_r rg .. min (e_r rg) (s_r rg + 10)])"

text \<open>
  The reading in which the window as a whole is looked at: some cell of the window is a
  time label, and at least three different weekday names occur in cells of the window.
\<close>

definition window_qualifies :: "worksheet \<Rightarrow> bool" where
  "window_qualifies ws =
     (let rg = sheet_range ws;
          rows = [s_r rg .. min (e_r rg) (s_r rg + 10)];
          cols = [s_c rg .. min (e_c rg) (s_c rg + 10)]
      in list_ex (\<lambda>r. list_ex (time_cell ws r) cols) rows
         \<and> 3 \<le> length (filter (\<lambda>day. list_ex (\<lambda>r. list_ex (\<lambda>c.
                    case cell_text ws r c of
                      None \<Rightarrow> False
                    | Some cellText \<Rightarrow> str_includes cellText (toLowerCase day)) cols) rows) DAYS))"

text \<open>The name of the first sheet that qualifies, and the first name when none does.\<close>

definition first_qualifying :: "(worksheet \<Rightarrow> bool) \<Rightarrow> workbook \<Rightarrow> string option" where
  "first_qualifying qualifies wb =
     (case find (\<lambda>n. case Sheets wb n of None \<Rightarrow> False | Some ws \<Rightarrow> qualifies ws) (SheetNames wb) of
        Some n \<Rightarrow> Some n
      | None \<Rightarrow> (case SheetNames wb of [] \<Rightarrow> None | n # _ \<Rightarrow> Some n))"

text \<open>A session, a preview and a state of the walk with the identifiers blanked.\<close>

definition erase_id :: "Session \<Rightarrow> Session" where
  "erase_id s = s\<lparr>id_token := []\<rparr>"

definition erase_ids :: "ImportPreview \<Rightarrow> ImportPreview" where
  "erase_ids p = p\<lparr>sessions := map erase_id (sessions p)\<rparr>"

definition same_but_ids :: "walk_state \<Rightarrow> walk_state \<Rightarrow> bool" where
  "same_but_ids st1 st2 =
     (fst st1 = fst st2 \<and> map erase_id (fst (snd st1)) = map erase_id (fst (snd st2))
      \<and> snd (snd st1) = snd (snd st2))"

text \<open>The fields that \<^verbatim>\<open>parseSessionCell\<close> fixes in a session made for a day and a start time.\<close>

definition session_of :: "string \<Rightarrow> string \<Rightarrow> Session \<Rightarrow> bool" where
  "session_of d t s =
     (day s = d \<and> start_time s = t \<and> duration_slots s = 1 \<and> notes s = [] \<and> attendance_marked s = None)"

text \<open>
  The visits of the walk, read off the grid alone. A cell of a session is visited once
  for every weekday that the header scan maps to its column, in each row below the header
  whose time cell normalizes: a visit has the row and the column of the cell, the weekday,
  the start time and the trimmed text of the cell. Blank cells are not visited.
\<close>

record visit =
  v_row :: int
  v_col :: int
  v_day :: string
  v_time :: string
  v_content :: string

definition cell_visit :: "worksheet \<Rightarrow> int \<Rightarrow> string \<Rightarrow> string \<times> int \<Rightarrow> visit list" where
  "cell_visit ws r timeStr = (\<lambda>(d, dayCol).
     (case cell ws r dayCol of
        None \<Rightarrow> []
      | Some v \<Rightarrow>
          if truthy v \<and> trim (value_toString v) \<noteq> []
          then [\<lparr>v_row = r, v_col = dayCol, v_day = d, v_time = timeStr,
                 v_content = trim (value_toString v)\<rparr>]
          else []))"

definition row_visits :: "worksheet \<Rightarrow> int \<Rightarrow> (string \<times> int) list \<Rightarrow> int \<Rightarrow> visit list" where
  "row_visits ws tc dcs r =
     (case cell ws r tc of
        None \<Rightarrow> []
      | Some v \<Rightarrow>
          if \<not> truthy v then []
          else
            (case normalizeTime (value_toString v) of
               None \<Rightarrow> []
             | Some timeStr \<Rightarrow>
                 if timeStr = [] then [] else concat (map (cell_visit ws r timeStr) dcs)))"

definition visits :: "worksheet \<Rightarrow> visit list" where
  "visits ws =
     (let h = find_header ws
      in concat (map (row_visits ws (timeCol h) (dayCols h))
                     [headerRow h + 1 .. e_r (sheet_range ws)]))"

text \<open>
  The outcome of each visit, in the order of the walk: what \<^verbatim>\<open>parseSessionCell\<close> returns
  or that it throws, the calls of \<^verbatim>\<open>uuidv4\<close> counted from one visit to the next.
\<close>

fun run_visits ::
  "(nat \<Rightarrow> string option) \<Rightarrow> nat \<Rightarrow> visit list \<Rightarrow> nat \<times> (visit \<times> (error + Session list)) list" where
  "run_visits uuidv4 k [] = (k, [])"
| "run_visits uuidv4 k (v # vs) =
     (case parseSessionCell uuidv4 k (v_content v) (v_day v) (v_time v) of
        (k', res) \<Rightarrow>
          (case run_visits uuidv4 k' vs of (k'', outs) \<Rightarrow> (k'', (v, res) # outs)))"

definition outcomes :: "(nat \<Rightarrow> string option) \<Rightarrow> visit list \<Rightarrow> (visit \<times> (error + Session list)) list" where
  "outcomes uuidv4 vs = snd (run_visits uuidv4 0 vs)"

text \<open>
  One entry for each visit that threw, with the row and the column counted from 1 and the
  text of the visit; and the sessions of the visits that did not throw.
\<close>

definition unparsed_of :: "(visit \<times> (error + Session list)) list \<Rightarrow> UnparsedCell list" where
  "unparsed_of outs =
     concat (map (\<lambda>(v, res). case res of
                    Inl e \<Rightarrow> [\<lparr>row = v_row v + 1, col = v_col v + 1, content = v_content v\<rparr>]
                  | Inr parsedSessions \<Rightarrow> []) outs)"

definition sessions_of :: "(visit \<times> (error + Session list)) list \<Rightarrow> Session list" where
  "sessions_of outs =
     concat (map (\<lambda>(v, res). case res of Inl e \<Rightarrow> [] | Inr parsedSessions \<Rightarrow> parsedSessions) outs)"

section \<open>Sample inputs\<close>

text \<open>A grid given by its filled cells, and a sheet with one cell replaced.\<close>

definition grid :: "((int \<times> int) \<times> cell_value) list \<Rightarrow> int \<Rightarrow> int \<Rightarrow> cell_value option" where
  "grid al r c = map_of al (r, c)"

definition set_cell :: "worksheet \<Rightarrow> int \<Rightarrow> int \<Rightarrow> cell_value option \<Rightarrow> worksheet" where
  "set_cell ws r c v = ws\<lparr>cell := (\<lambda>r' c'. if r' = r \<and> c' = c then v else cell ws r' c')\<rparr>"

text \<open>An identifier generator that never fails: call \<open>k\<close> returns the decimal text of \<open>k\<close>.\<close>

definition ids_decimal :: "nat \<Rightarrow> string option" where
  "ids_decimal k = Some (nat_digits k)"

definition sample_sheet :: worksheet where
  "sample_sheet =
     \<lparr>ref = Some \<lparr>s_r = 0, s_c = 0, e_r = 2, e_c = 3\<rparr>,
      cell = grid [((0, 0), VStr ''Time''), ((0, 1), VStr ''Monday''), ((0, 2), VStr ''Tuesday''),
                   ((0, 3), VStr ''Wednesday''),
                   ((1, 0), VStr ''9:00''), ((1, 1), VStr ''Math (L)''), ((1, 3), VStr ''Physics: Dr. Who''),
                   ((2, 0), VNum 10), ((2, 2), VStr ''Art'')]\<rparr>"

definition one_day_sheet :: worksheet where
  "one_day_sheet =
     \<lparr>ref = Some \<lparr>s_r = 0, s_c = 0, e_r = 1, e_c = 1\<rparr>,
      cell = grid [((0, 0), VStr ''Time''), ((0, 1), VStr ''Monday''),
                   ((1, 0), VStr ''9:00''), ((1, 1), VStr ''Math'')]\<rparr>"

definition header_only_sheet :: worksheet where
  "header_only_sheet =
     \<lparr>ref = Some \<lparr>s_r = 0, s_c = 0, e_r = 0, e_c = 1\<rparr>,
      cell = grid [((0, 0), VStr ''Time''), ((0, 1), VStr ''Monday'')]\<rparr>"

definition blank_sheet :: worksheet where
  "blank_sheet = \<lparr>ref = None, cell = grid []\<rparr>"

text \<open>A sheet of twelve columns: column 11 lies beyond the first eleven.\<close>

definition wide_sheet :: worksheet where
  "wide_sheet =
     \<lparr>ref = Some \<lparr>s_r = 0, s_c = 0, e_r = 1, e_c = 11\<rparr>,
      cell = grid [((0, 0), VStr ''Time''), ((0, 1), VStr ''Monday''), ((0, 2), VStr ''Tuesday''),
                   ((0, 3), VStr ''Wednesday''),
                   ((1, 0), VStr ''9:00''), ((1, 1), VStr ''Math'')]\<rparr>"

text \<open>A sheet with its time label in one row and its weekday names in the next.\<close>

definition split_sheet :: worksheet where
  "split_sheet =
     \<lparr>ref = Some \<lparr>s_r = 0, s_c = 0, e_r = 2, e_c = 3\<rparr>,
      cell = grid [((0, 0), VStr ''Time''),
                   ((1, 1), VStr ''Monday''), ((1, 2), VStr ''Tuesday''), ((1, 3), VStr ''Wednesday''),
                   ((2, 0), VStr ''9:00''), ((2, 1), VStr ''Math'')]\<rparr>"

definition split_workbook :: workbook where
  "split_workbook =
     \<lparr>SheetNames = [''Sheet1'', ''Sheet2''],
      Sheets = map_of [(''Sheet1'', split_sheet), (''Sheet2'', sample_sheet)]\<rparr>"

text \<open>A sheet whose header row names one weekday three times.\<close>

definition repeat_sheet :: worksheet where
  "repeat_sheet =
     \<lparr>ref = Some \<lparr>s_r = 0, s_c = 0, e_r = 1, e_c = 3\<rparr>,
      cell = grid [((0, 0), VStr ''Time''),
                   ((0, 1), VStr ''Monday''), ((0, 2), VStr ''Monday''), ((0, 3), VStr ''Monday''),
                   ((1, 0), VStr ''9:00''), ((1, 1), VStr ''Math'')]\<rparr>"

definition repeat_workbook :: workbook where
  "repeat_workbook =
     \<lparr>SheetNames = [''Sheet1'', ''Sheet2''],
      Sheets = map_of [(''Sheet1'', one_day_sheet), (''Sheet2'', repeat_sheet)]\<rparr>"

text \<open>A second identifier generator that never fails.\<close>

definition ids_prefixed :: "nat \<Rightarrow> string option" where
  "ids_prefixed k = Some (''id-'' @ nat_digits k)"

text \<open>
  An identifier generator whose second call throws, and a sheet whose first session cell
  has two lines and white space around them.
\<close>

definition ids_fail_second :: "nat \<Rightarrow> string option" where
  "ids_fail_second k = (if k = 1 then None else Some (nat_digits k))"

definition two_line_sheet :: worksheet where
  "two_line_sheet =
     \<lparr>ref = Some \<lparr>s_r = 0, s_c = 0, e_r = 2, e_c = 2\<rparr>,
      cell = grid [((0, 0), VStr ''Time''), ((0, 1), VStr ''Monday''), ((0, 2), VStr ''Tuesday''),
                   ((1, 0), VStr ''9:00''),
                   ((1, 1), VStr '' Math\<newline>Physics ''),
                   ((1, 2), VStr ''Art''),
                   ((2, 0), VStr ''10:00''), ((2, 1), VStr ''Music'')]\<rparr>"

text \<open>
  A generator whose every call throws, one whose first call throws, and a sheet whose
  header names two weekdays in one cell, so that both are mapped to one column.
\<close>

definition ids_fail_always :: "nat \<Rightarrow> string option" where
  "ids_fail_always k = None"

definition ids_fail_first :: "nat \<Rightarrow> string option" where
  "ids_fail_first k = (if k = 0 then None else Some (nat_digits k))"

definition shared_column_sheet :: worksheet where
  "shared_column_sheet =
     \<lparr>ref = Some \<lparr>s_r = 0, s_c = 0, e_r = 1, e_c = 1\<rparr>,
      cell = grid [((0, 0), VStr ''Time''), ((0, 1), VStr ''Monday/Tuesday''),
                   ((1, 0), VStr ''9:00''), ((1, 1), VStr ''Math'')]\<rparr>"

section \<open>Properties of TimeNormalizer\<close>

lemma digit_not_space: "is_digit a \<Longrightarrow> \<not> is_space a"
  by (auto simp: is_digit_def is_space_def)

lemma digit_time_char: "is_digit a \<Longrightarrow> time_char a"
  by (simp add: time_char_def)

lemma colon_facts: "\<not> is_space CHR '':''" "\<not> is_digit CHR '':''" "time_char CHR '':''"
  by (simp_all add: is_space_def is_digit_def time_char_def)

lemma clean_time_canonical:
  assumes "is_digit a" "is_digit b" "is_digit d" "is_digit e"
  shows "clean_time [a, b, CHR '':'', d, e] = [a, b, CHR '':'', d, e]"
  using assms by (simp add: clean_time_def trim_def digit_not_space digit_time_char colon_facts)

lemma first_pattern_canonical:
  assumes "is_digit a" "is_digit b" "is_digit d" "is_digit e"
  shows "first_pattern TIME_PATTERNS [a, b, CHR '':'', d, e]
         = Some \<lparr>index = 0, matched = [a, b, CHR '':'', d, e],
                  captures = [1 \<mapsto> [a, b], 2 \<mapsto> [d, e]]\<rparr>"
  using assms
  by (simp add: TIME_PATTERNS_def str_match_def Digit_def Opt_def Lit_def colon_facts)

text \<open>Reading two digits as a number and printing it back on two places gives the digits.\<close>

lemma two_digits_text:
  assumes "is_digit a" "is_digit b"
  shows "padStart0 2 (num_toString (parseInt [a, b])) = [a, b]"
proof -
  from assms(1) have a: "a \<in> set ''0123456789''" by (simp add: is_digit_def)
  from assms(2) have b: "b \<in> set ''0123456789''" by (simp add: is_digit_def)
  have "\<forall>x \<in> set ''0123456789''. \<forall>y \<in> set ''0123456789''.
          padStart0 2 (num_toString (parseInt [x, y])) = [x, y]"
    by code_simp
  with a b show ?thesis by blast
qed

lemma normalizeTime_two_by_two:
  assumes "is_digit a" "is_digit b" "is_digit d" "is_digit e"
  shows "normalizeTime [a, b, CHR '':'', d, e] = Some [a, b, CHR '':'', d, e]"
  using assms
  by (simp add: normalizeTime_def clean_time_canonical first_pattern_canonical time_of_match_def
      grp_def two_digits_text del: num_toString.simps)

text \<open>
  C10. TimeNormalizer is idempotent on canonical output: a zero-padded \<^verbatim>\<open>HH:MM\<close> string
  with hour 00 to 23 and minutes 00 to 59 is returned unchanged.
\<close>

theorem normalizeTime_canonical_unchanged:
  "canonical_time s \<Longrightarrow> normalizeTime s = Some s"
proof (induction s rule: canonical_time.induct)
  case (1 h1 h2 sep m1 m2)
  then show ?case by (simp add: normalizeTime_two_by_two)
qed simp_all

theorem normalizeTime_canonical_unchanged_witness:
  "canonical_time ''14:30'' \<and> normalizeTime ''14:30'' = Some ''14:30''"
proof -
  have c: "canonical_time ''14:30''" by (simp add: is_digit_def digit_val_def)
  from normalizeTime_canonical_unchanged [OF c] c show ?thesis by simp
qed

text \<open>
  C3. The claim is that every result of TimeNormalizer is \<^verbatim>\<open>null\<close> or a canonical time.
  The code returns what the first matching pattern captured without a check of the range,
  and for the fourth pattern it reads the AM/PM capture as the minutes: \<^verbatim>\<open>25:99\<close> comes
  back as it is, \<^verbatim>\<open>2 PM\<close> becomes \<^verbatim>\<open>02:NaN\<close>, and \<^verbatim>\<open>99:00 PM\<close> becomes \<^verbatim>\<open>111:00\<close>.
\<close>

theorem normalizeTime_not_canonical:
  "normalizeTime ''25:99'' = Some ''25:99'' \<and> \<not> canonical_time ''25:99''
   \<and> normalizeTime ''2 PM'' = Some ''02:NaN'' \<and> \<not> canonical_time ''02:NaN''
   \<and> normalizeTime ''99:00 PM'' = Some ''111:00'' \<and> \<not> canonical_time ''111:00''"
proof -
  have "normalizeTime ''25:99'' = Some ''25:99''" by code_simp
  moreover have "normalizeTime ''2 PM'' = Some ''02:NaN''" by code_simp
  moreover have "normalizeTime ''99:00 PM'' = Some ''111:00''" by code_simp
  moreover have "\<not> canonical_time ''25:99''" by (simp add: digit_val_def)
  moreover have "\<not> canonical_time ''02:NaN''" by (simp add: is_digit_def)
  moreover have "\<not> canonical_time ''111:00''" by simp
  ultimately show ?thesis by blast
qed

section \<open>Properties of LineParser\<close>

text \<open>What \<^verbatim>\<open>parseSessionLine\<close> returns for the line of the specification's example.\<close>

lemma parseSessionLine_example_value:
  "parseSessionLine ''Math (L): (Room3) Dr. Smith: (G1,G2)''
   = Some \<lparr>ParsedCell.subject_name = ''Math (L) Dr. Smith'', session_type = [],
            room_or_code = ''3'', lecturer = [], groups = [''G1'', ''G2''],
            raw_text = ''Math (L) Dr. Smith:'', confidence = Medium\<rparr>"
  by code_simp

text \<open>
  C1, as stated: for the line \<^verbatim>\<open>Math (L): (Room3) Dr. Smith: (G1,G2)\<close> the parsed line has
  subject \<^verbatim>\<open>Math\<close>, type \<^verbatim>\<open>L\<close>, room \<^verbatim>\<open>Room3\<close>, lecturer \<^verbatim>\<open>Dr. Smith\<close>, groups
  \<^verbatim>\<open>G1\<close>, \<^verbatim>\<open>G2\<close> and confidence high. The code returns other values.
\<close>

theorem parseSessionLine_example_refuted:
  "\<not> (map_option ParsedCell.subject_name (parseSessionLine ''Math (L): (Room3) Dr. Smith: (G1,G2)'') = Some ''Math''
      \<and> map_option ParsedCell.session_type (parseSessionLine ''Math (L): (Room3) Dr. Smith: (G1,G2)'') = Some ''L''
      \<and> map_option room_or_code (parseSessionLine ''Math (L): (Room3) Dr. Smith: (G1,G2)'') = Some ''Room3''
      \<and> map_option ParsedCell.lecturer (parseSessionLine ''Math (L): (Room3) Dr. Smith: (G1,G2)'') = Some ''Dr. Smith''
      \<and> map_option ParsedCell.groups (parseSessionLine ''Math (L): (Room3) Dr. Smith: (G1,G2)'') = Some [''G1'', ''G2'']
      \<and> map_option ParsedCell.confidence (parseSessionLine ''Math (L): (Room3) Dr. Smith: (G1,G2)'') = Some High)"
  by (simp add: parseSessionLine_example_value)

text \<open>
  C1, amended: for that line the parser returns a parsed line whose room is \<^verbatim>\<open>3\<close> (the
  leading \<^verbatim>\<open>Room\<close> is stripped) and whose groups are \<^verbatim>\<open>G1\<close>, \<^verbatim>\<open>G2\<close>.
\<close>

theorem parseSessionLine_example_room_groups:
  "parseSessionLine ''Math (L): (Room3) Dr. Smith: (G1,G2)'' \<noteq> None
   \<and> map_option room_or_code (parseSessionLine ''Math (L): (Room3) Dr. Smith: (G1,G2)'') = Some ''3''
   \<and> map_option ParsedCell.groups (parseSessionLine ''Math (L): (Room3) Dr. Smith: (G1,G2)'')
       = Some [''G1'', ''G2'']"
  by (simp add: parseSessionLine_example_value)

section \<open>Results of the sample inputs\<close>

lemma one_day_result:
  "parseWorksheet ids_decimal one_day_sheet
   = Inr \<lparr>sessions = [\<lparr>id_token = ''0'', day = ''Monday'', start_time = ''09:00'', duration_slots = 1,
                          Session.subject_name = ''Math'', session_type = [], room = [], lecturer = [],
                          groups = [], notes = [], attendance_marked = None\<rparr>],
           unparsedCells = [],
           metadata = \<lparr>totalCells = 1, parsedCells = 1, confidence = High\<rparr>\<rparr>"
  by code_simp

lemma header_only_result:
  "parseWorksheet ids_decimal header_only_sheet
   = Inr \<lparr>sessions = [], unparsedCells = [],
           metadata = \<lparr>totalCells = 0, parsedCells = 0, confidence = Low\<rparr>\<rparr>"
  by code_simp

lemma one_day_has_time: "header_window_has_time one_day_sheet"
  by code_simp

lemma blank_no_time: "\<not> header_window_has_time blank_sheet"
  by code_simp

section \<open>Properties of the header scan\<close>

lemma days_fold_header:
  "headerRow (fold (\<lambda>day st. if P day then st\<lparr>dayCols := AList.update day c (dayCols st)\<rparr> else st) ds st)
   = headerRow st"
  "timeCol (fold (\<lambda>day st. if P day then st\<lparr>dayCols := AList.update day c (dayCols st)\<rparr> else st) ds st)
   = timeCol st"
  by (induction ds arbitrary: st) auto

lemma scan_cell_header:
  "headerRow (scan_cell ws r c st) = (if time_cell ws r c then r else headerRow st)"
  "timeCol (scan_cell ws r c st) = (if time_cell ws r c then c else timeCol st)"
  by (auto simp: scan_cell_def time_cell_def days_fold_header split: option.splits)

text \<open>
  Rows and columns are not negative, so after a row the two variables differ from \<open>-1\<close>
  exactly when they did before or the row has a time label.
\<close>

lemma scan_cols_found:
  assumes "0 \<le> r" "\<forall>c\<in>set cols. 0 \<le> c"
  shows "(headerRow (fold (scan_cell ws r) cols st) \<noteq> -1)
           = (headerRow st \<noteq> -1 \<or> (\<exists>c\<in>set cols. time_cell ws r c))"
    and "(timeCol (fold (scan_cell ws r) cols st) \<noteq> -1)
           = (timeCol st \<noteq> -1 \<or> (\<exists>c\<in>set cols. time_cell ws r c))"
  using assms by (induction cols arbitrary: st) (auto simp: scan_cell_header)

lemma scan_rows_found:
  assumes "\<forall>r\<in>set rows. 0 \<le> r" "\<forall>c\<in>set cols. 0 \<le> c"
    and "(headerRow st \<noteq> -1) = (timeCol st \<noteq> -1)"
  shows "(headerRow (scan_rows ws cols rows st) \<noteq> -1)
           = (headerRow st \<noteq> -1 \<or> (\<exists>r\<in>set rows. \<exists>c\<in>set cols. time_cell ws r c))
       \<and> (timeCol (scan_rows ws cols rows st) \<noteq> -1)
           = (timeCol st \<noteq> -1 \<or> (\<exists>r\<in>set rows. \<exists>c\<in>set cols. time_cell ws r c))"
  using assms
proof (induction rows arbitrary: st)
  case Nil
  then show ?case by simp
next
  case (Cons r rows)
  then have r: "0 \<le> r" and rows: "\<forall>r\<in>set rows. 0 \<le> r" by simp_all
  note fc = scan_cols_found [OF r Cons.prems(2), of ws st]
  from fc Cons.prems(3)
  have sync: "(headerRow (fold (scan_cell ws r) cols st) \<noteq> -1)
                = (timeCol (fold (scan_cell ws r) cols st) \<noteq> -1)"
    by blast
  note ih = Cons.IH [OF rows Cons.prems(2) sync]
  show ?case
  proof (cases "headerRow (fold (scan_cell ws r) cols st) \<noteq> -1
                \<and> int (length (dayCols (fold (scan_cell ws r) cols st))) \<ge> 3")
    case True
    with fc Cons.prems(3) show ?thesis by (auto simp: Let_def)
  next
    case False
    with fc ih show ?thesis by (auto simp: Let_def)
  qed
qed

lemma find_header_found:
  assumes "0 \<le> s_r (sheet_range ws)" "0 \<le> s_c (sheet_range ws)"
  shows "(headerRow (find_header ws) \<noteq> -1) = header_window_has_time ws"
    and "(timeCol (find_header ws) \<noteq> -1) = header_window_has_time ws"
  using assms
    scan_rows_found [where rows = "[s_r (sheet_range ws) .. min (e_r (sheet_range ws)) (s_r (sheet_range ws) + 10)]"
      and cols = "[s_c (sheet_range ws) .. e_c (sheet_range ws)]" and ws = ws
      and st = "\<lparr>headerRow = -1, timeCol = -1, dayCols = []\<rparr>"]
  by (auto simp: find_header_def header_window_has_time_def Let_def list_ex_iff)

text \<open>
  C6. GridExtractor fails with the structure error if and only if no cell that the header
  scan reads has a lower-cased text containing \<^verbatim>\<open>time\<close>; otherwise it produces a preview,
  however few weekday columns it found. (The range of a sheet has no negative row or
  column.)
\<close>

theorem parseWorksheet_StructureError_iff:
  assumes "0 \<le> s_r (sheet_range ws)" "0 \<le> s_c (sheet_range ws)"
  shows "(parseWorksheet uuidv4 ws = Inl StructureError) = (\<not> header_window_has_time ws)
       \<and> (\<exists>p. parseWorksheet uuidv4 ws = Inr p) = header_window_has_time ws"
  using find_header_found [OF assms]
  by (auto simp: parseWorksheet_def Let_def split: prod.splits)

theorem parseWorksheet_StructureError_iff_witness:
  "(0::int) \<le> s_r (sheet_range one_day_sheet) \<and> 0 \<le> s_c (sheet_range one_day_sheet)
   \<and> length (dayCols (find_header one_day_sheet)) < 3
   \<and> parseWorksheet ids_decimal one_day_sheet \<noteq> Inl StructureError
   \<and> parseWorksheet ids_decimal blank_sheet = Inl StructureError"
proof -
  have a: "0 \<le> s_r (sheet_range one_day_sheet)" "0 \<le> s_c (sheet_range one_day_sheet)"
    by (simp_all add: sheet_range_def one_day_sheet_def)
  have b: "0 \<le> s_r (sheet_range blank_sheet)" "0 \<le> s_c (sheet_range blank_sheet)"
    by (simp_all add: sheet_range_def blank_sheet_def)
  have c: "length (dayCols (find_header one_day_sheet)) < 3" by code_simp
  from parseWorksheet_StructureError_iff [OF a, of ids_decimal]
    parseWorksheet_StructureError_iff [OF b, of ids_decimal]
    one_day_has_time blank_no_time a c
  show ?thesis by simp
qed

text \<open>The header scan reads a sheet only through its range and the cells of its rows.\<close>

lemma scan_cell_cong:
  assumes "cell ws' r c = cell ws r c"
  shows "scan_cell ws' r c = scan_cell ws r c"
  by (rule ext) (simp add: scan_cell_def cell_text_def assms)

lemma scan_cols_cong:
  assumes "\<forall>c\<in>set cols. cell ws' r c = cell ws r c"
  shows "fold (scan_cell ws' r) cols st = fold (scan_cell ws r) cols st"
  using assms
proof (induction cols arbitrary: st)
  case Nil
  show ?case by simp
next
  case (Cons c cols)
  then have "scan_cell ws' r c = scan_cell ws r c"
    by (simp add: scan_cell_cong [of ws' r c ws])
  with Cons show ?case by simp
qed

lemma scan_rows_cong:
  assumes "\<forall>r\<in>set rows. \<forall>c\<in>set cols. cell ws' r c = cell ws r c"
  shows "scan_rows ws' cols rows st = scan_rows ws cols rows st"
  using assms
proof (induction rows arbitrary: st)
  case Nil
  then show ?case by simp
next
  case (Cons r rows)
  then have "fold (scan_cell ws' r) cols st = fold (scan_cell ws r) cols st"
    by (simp add: scan_cols_cong [of cols ws' r ws])
  with Cons show ?case by (simp add: Let_def)
qed

text \<open>
  C8, as stated: the header scan reads only the first eleven rows and the first eleven
  columns, so a change outside that window changes nothing. In a sheet of twelve
  columns, a time label put into column 11 of row 0 moves the detected time column.
\<close>

theorem find_header_beyond_eleven_columns:
  "timeCol (find_header (set_cell wide_sheet 0 11 (Some (VStr ''Time'')))) = 11
   \<and> timeCol (find_header wide_sheet) = 0"
  by code_simp

text \<open>
  C8, amended: the header scan reads only cells in the first eleven rows of the sheet's
  range, over all the columns of the range. Two sheets with the same range that agree on
  those cells have the same header row, time column and weekday columns.
\<close>

theorem find_header_reads_first_rows:
  assumes "ref ws' = ref ws"
    and "\<forall>r\<in>{s_r (sheet_range ws) .. min (e_r (sheet_range ws)) (s_r (sheet_range ws) + 10)}.
         \<forall>c\<in>{s_c (sheet_range ws) .. e_c (sheet_range ws)}. cell ws' r c = cell ws r c"
  shows "find_header ws' = find_header ws"
proof -
  from assms(1) have "sheet_range ws' = sheet_range ws" by (simp add: sheet_range_def)
  moreover from assms(2)
  have "scan_rows ws' [s_c (sheet_range ws) .. e_c (sheet_range ws)]
          [s_r (sheet_range ws) .. min (e_r (sheet_range ws)) (s_r (sheet_range ws) + 10)]
          \<lparr>headerRow = -1, timeCol = -1, dayCols = []\<rparr>
        = scan_rows ws [s_c (sheet_range ws) .. e_c (sheet_range ws)]
          [s_r (sheet_range ws) .. min (e_r (sheet_range ws)) (s_r (sheet_range ws) + 10)]
          \<lparr>headerRow = -1, timeCol = -1, dayCols = []\<rparr>"
    by (intro scan_rows_cong) simp
  ultimately show ?thesis by (simp add: find_header_def Let_def)
qed

theorem find_header_reads_first_rows_witness:
  "find_header (set_cell sample_sheet 20 0 (Some (VStr ''Time''))) = find_header sample_sheet"
proof -
  have a: "ref (set_cell sample_sheet 20 0 (Some (VStr ''Time''))) = ref sample_sheet"
    by (simp add: set_cell_def)
  have b: "\<forall>r\<in>{s_r (sheet_range sample_sheet)
                   .. min (e_r (sheet_range sample_sheet)) (s_r (sheet_range sample_sheet) + 10)}.
           \<forall>c\<in>{s_c (sheet_range sample_sheet) .. e_c (sheet_range sample_sheet)}.
             cell (set_cell sample_sheet 20 0 (Some (VStr ''Time''))) r c = cell sample_sheet r c"
    by (simp add: set_cell_def sheet_range_def sample_sheet_def)
  from find_header_reads_first_rows [OF a b] show ?thesis .
qed

section \<open>Properties of the import confidence\<close>

text \<open>
  C4. In a preview, \<open>totalCells\<close> is the number of rows below the header times the number
  of weekday columns, \<open>parsedCells\<close> is \<open>totalCells\<close> less the number of unparsed cells,
  and the confidence is high, medium or low as the quotient of \<open>parsedCells\<close> by
  \<open>max totalCells 1\<close> is at least 0.8, at least 0.6, or less; it is low when
  \<open>totalCells\<close> is 0.
\<close>

theorem import_confidence_mapping:
  assumes "parseWorksheet uuidv4 ws = Inr p"
  shows "totalCells (metadata p)
           = (e_r (sheet_range ws) - headerRow (find_header ws)) * int (length (dayCols (find_header ws)))
       \<and> parsedCells (metadata p) = totalCells (metadata p) - int (length (unparsedCells p))
       \<and> confidence (metadata p)
           = (if real_of_int (parsedCells (metadata p)) / real_of_int (max (totalCells (metadata p)) 1) \<ge> 0.8
              then High
              else if real_of_int (parsedCells (metadata p)) / real_of_int (max (totalCells (metadata p)) 1) \<ge> 0.6
              then Medium
              else Low)
       \<and> (totalCells (metadata p) = 0 \<longrightarrow> confidence (metadata p) = Low)"
  using assms
  by (auto simp: parseWorksheet_def Let_def calculateConfidence_def split: if_splits prod.splits)

theorem import_confidence_mapping_witness:
  "parseWorksheet ids_decimal header_only_sheet
     = Inr \<lparr>sessions = [], unparsedCells = [],
             metadata = \<lparr>totalCells = 0, parsedCells = 0, confidence = Low\<rparr>\<rparr>
   \<and> totalCells \<lparr>totalCells = 0, parsedCells = 0, confidence = Low\<rparr>
       = (e_r (sheet_range header_only_sheet) - headerRow (find_header header_only_sheet))
         * int (length (dayCols (find_header header_only_sheet)))"
  using import_confidence_mapping [OF header_only_result] header_only_result by simp

section \<open>Properties of the sessions\<close>

lemma session_lines_sessions:
  assumes "session_lines uuidv4 d t lines (k, acc) = (k', Inr out)" "s \<in> set out"
  shows "s \<in> set acc \<or> session_of d t s"
  using assms
proof (induction lines arbitrary: k acc)
  case Nil
  then show ?case by simp
next
  case (Cons line lines)
  show ?case
  proof (cases "parseSessionLine (trim line)")
    case None
    with Cons show ?thesis by simp
  next
    case (Some parsed)
    show ?thesis
    proof (cases "uuidv4 k")
      case None
      with Some Cons.prems show ?thesis by simp
    next
      case (Some i)
      with \<open>parseSessionLine (trim line) = Some parsed\<close> Cons.prems(1)
      have "session_lines uuidv4 d t lines
              (Suc k, acc @ [\<lparr>id_token = i, day = d, start_time = t, duration_slots = 1,
                           Session.subject_name = ParsedCell.subject_name parsed,
                           Session.session_type = ParsedCell.session_type parsed,
                           room = room_or_code parsed,
                           Session.lecturer = ParsedCell.lecturer parsed,
                           Session.groups = ParsedCell.groups parsed,
                           notes = [], attendance_marked = None\<rparr>]) = (k', Inr out)"
        by simp
      from Cons.IH [OF this Cons.prems(2)] show ?thesis
        by (auto simp: session_of_def)
    qed
  qed
qed

lemma parseSessionCell_sessions:
  assumes "parseSessionCell uuidv4 k cellContent d t = (k', Inr out)" "s \<in> set out"
  shows "session_of d t s"
  using session_lines_sessions [of uuidv4 d t _ k "[]" k' out s] assms
  by (simp add: parseSessionCell_def)

lemma day_cell_sessions:
  assumes "day_cell uuidv4 ws r t (d, dc) (k, acc, unp) = (k', acc', unp')" "s \<in> set acc'"
  shows "s \<in> set acc \<or> session_of d t s"
  using assms
  by (auto simp: day_cell_def Let_def split: option.splits if_splits prod.splits sum.splits
           dest: parseSessionCell_sessions)

lemma day_cells_sessions:
  assumes "s \<in> set (fst (snd (fold (day_cell uuidv4 ws r t) dcs st)))"
  shows "s \<in> set (fst (snd st)) \<or> (\<exists>d\<in>fst ` set dcs. session_of d t s)"
  using assms
proof (induction dcs arbitrary: st)
  case Nil
  then show ?case by simp
next
  case (Cons dc dcs)
  obtain d c where dc: "dc = (d, c)" by (cases dc)
  obtain k acc unp where st: "st = (k, acc, unp)" by (cases st)
  obtain k' acc' unp' where step: "day_cell uuidv4 ws r t (d, c) (k, acc, unp) = (k', acc', unp')"
    by (cases "day_cell uuidv4 ws r t (d, c) (k, acc, unp)")
  from Cons.prems dc st step
  have "s \<in> set (fst (snd (fold (day_cell uuidv4 ws r t) dcs (k', acc', unp'))))" by simp
  from Cons.IH [OF this]
  have "s \<in> set acc' \<or> (\<exists>d\<in>fst ` set dcs. session_of d t s)" by simp
  with day_cell_sessions [OF step, of s] dc st show ?case by auto
qed

lemma walk_row_sessions:
  assumes "s \<in> set (fst (snd (walk_row uuidv4 ws tc dcs r st)))"
  shows "s \<in> set (fst (snd st))
       \<or> (\<exists>d\<in>fst ` set dcs. \<exists>v. cell ws r tc = Some v \<and> truthy v
             \<and> normalizeTime (value_toString v) = Some (start_time s)
             \<and> session_of d (start_time s) s)"
proof (cases "s \<in> set (fst (snd st))")
  case True
  then show ?thesis by simp
next
  case False
  with assms obtain v t where v: "cell ws r tc = Some v" "truthy v"
    and t: "normalizeTime (value_toString v) = Some t"
    and f: "s \<in> set (fst (snd (fold (day_cell uuidv4 ws r t) dcs st)))"
    by (auto simp: walk_row_def split: option.splits if_splits)
  from day_cells_sessions [OF f] False
  obtain d where "d \<in> fst ` set dcs" "session_of d t s" by auto
  with v t show ?thesis by (auto simp: session_of_def)
qed

lemma walk_rows_sessions:
  assumes "s \<in> set (fst (snd (fold (walk_row uuidv4 ws tc dcs) rows st)))"
  shows "s \<in> set (fst (snd st))
       \<or> (\<exists>r\<in>set rows. \<exists>d\<in>fst ` set dcs. \<exists>v. cell ws r tc = Some v \<and> truthy v
             \<and> normalizeTime (value_toString v) = Some (start_time s)
             \<and> session_of d (start_time s) s)"
  using assms
proof (induction rows arbitrary: st)
  case Nil
  then show ?case by simp
next
  case (Cons r rows)
  then have "s \<in> set (fst (snd (fold (walk_row uuidv4 ws tc dcs) rows (walk_row uuidv4 ws tc dcs r st))))"
    by simp
  from Cons.IH [OF this] walk_row_sessions [of s uuidv4 ws tc dcs r st]
  show ?case by auto
qed

lemma days_fold_keys:
  "fst ` set (dayCols (fold (\<lambda>day st. if P day then st\<lparr>dayCols := AList.update day c (dayCols st)\<rparr> else st) ds st))
   \<subseteq> fst ` set (dayCols st) \<union> set ds"
proof (induction ds arbitrary: st)
  case Nil
  show ?case by simp
next
  case (Cons a ds)
  define st' where "st' = (if P a then st\<lparr>dayCols := AList.update a c (dayCols st)\<rparr> else st)"
  have keys: "fst ` set (dayCols st') \<subseteq> insert a (fst ` set (dayCols st))"
    by (auto simp: st'_def dom_update)
  have step: "fold (\<lambda>day st. if P day then st\<lparr>dayCols := AList.update day c (dayCols st)\<rparr> else st) (a # ds) st
              = fold (\<lambda>day st. if P day then st\<lparr>dayCols := AList.update day c (dayCols st)\<rparr> else st) ds st'"
    by (simp add: st'_def)
  from Cons [of st'] keys show ?case unfolding step by auto
qed

lemma scan_cell_keys:
  "fst ` set (dayCols (scan_cell ws r c st)) \<subseteq> fst ` set (dayCols st) \<union> set DAYS"
proof (cases "cell_text ws r c")
  case None
  then show ?thesis by (simp add: scan_cell_def)
next
  case (Some cellText)
  show ?thesis
    using days_fold_keys [of "\<lambda>day. str_includes cellText (toLowerCase day)" c DAYS
        "if str_includes cellText ''time'' then st\<lparr>headerRow := r, timeCol := c\<rparr> else st"]
    by (simp add: scan_cell_def Some split: if_splits)
qed

lemma scan_cols_keys:
  "fst ` set (dayCols (fold (scan_cell ws r) cols st)) \<subseteq> fst ` set (dayCols st) \<union> set DAYS"
proof (induction cols arbitrary: st)
  case Nil
  show ?case by simp
next
  case (Cons c cols)
  from Cons [of "scan_cell ws r c st"] scan_cell_keys [of ws r c st]
  show ?case by auto
qed

lemma scan_rows_keys:
  "fst ` set (dayCols (scan_rows ws cols rows st)) \<subseteq> fst ` set (dayCols st) \<union> set DAYS"
proof (induction rows arbitrary: st)
  case Nil
  show ?case by simp
next
  case (Cons r rows)
  from Cons [of "fold (scan_cell ws r) cols st"] scan_cols_keys [of ws r cols st]
  show ?case by (auto simp: Let_def)
qed

lemma find_header_keys: "fst ` set (dayCols (find_header ws)) \<subseteq> set DAYS"
  using scan_rows_keys [of ws _ _ "\<lparr>headerRow = -1, timeCol = -1, dayCols = []\<rparr>"]
  by (simp add: find_header_def Let_def)

text \<open>
  C9. Every session of a returned preview has one of the seven weekday names as its day,
  a start time that TimeNormalizer returned for the time cell of a row below the header
  (so a row whose time does not normalize gives no session), one duration slot, empty
  notes and no attendance mark.
\<close>

theorem sessions_well_formed:
  assumes "parseWorksheet uuidv4 ws = Inr p" "s \<in> set (sessions p)"
  shows "day s \<in> set DAYS
       \<and> (\<exists>r v. headerRow (find_header ws) < r \<and> r \<le> e_r (sheet_range ws)
             \<and> cell ws r (timeCol (find_header ws)) = Some v
             \<and> normalizeTime (value_toString v) = Some (start_time s))
       \<and> duration_slots s = 1 \<and> notes s = [] \<and> attendance_marked s = None"
proof -
  let ?h = "find_header ws"
  let ?rows = "[headerRow ?h + 1 .. e_r (sheet_range ws)]"
  from assms
  have "s \<in> set (fst (snd (fold (walk_row uuidv4 ws (timeCol ?h) (dayCols ?h)) ?rows (0, [], []))))"
    by (auto simp: parseWorksheet_def Let_def split: if_splits prod.splits)
  from walk_rows_sessions [OF this]
  have "\<exists>r\<in>set ?rows. \<exists>d\<in>fst ` set (dayCols ?h). \<exists>v. cell ws r (timeCol ?h) = Some v \<and> truthy v
           \<and> normalizeTime (value_toString v) = Some (start_time s) \<and> session_of d (start_time s) s"
    by simp
  then obtain r d v where r: "r \<in> set ?rows" and d: "d \<in> fst ` set (dayCols ?h)"
    and v: "cell ws r (timeCol ?h) = Some v" "normalizeTime (value_toString v) = Some (start_time s)"
    and s: "session_of d (start_time s) s"
    by blast
  from d find_header_keys [of ws] s have "day s \<in> set DAYS" by (auto simp: session_of_def)
  moreover from r have "headerRow ?h < r \<and> r \<le> e_r (sheet_range ws)" by simp
  ultimately show ?thesis using v s by (auto simp: session_of_def)
qed

theorem sessions_well_formed_witness:
  "parseWorksheet ids_decimal one_day_sheet
   = Inr \<lparr>sessions = [\<lparr>id_token = ''0'', day = ''Monday'', start_time = ''09:00'', duration_slots = 1,
                          Session.subject_name = ''Math'', session_type = [], room = [], lecturer = [],
                          groups = [], notes = [], attendance_marked = None\<rparr>],
           unparsedCells = [],
           metadata = \<lparr>totalCells = 1, parsedCells = 1, confidence = High\<rparr>\<rparr>
   \<and> ''Monday'' \<in> set DAYS
   \<and> (\<exists>r v. headerRow (find_header one_day_sheet) < r \<and> r \<le> e_r (sheet_range one_day_sheet)
             \<and> cell one_day_sheet r (timeCol (find_header one_day_sheet)) = Some v
             \<and> normalizeTime (value_toString v) = Some ''09:00'')"
  using sessions_well_formed [OF one_day_result, of "\<lparr>id_token = ''0'', day = ''Monday'', start_time = ''09:00'', duration_slots = 1,
                          Session.subject_name = ''Math'', session_type = [], room = [], lecturer = [],
                          groups = [], notes = [], attendance_marked = None\<rparr>"] one_day_result
  by simp

section \<open>Properties of SheetLocator\<close>

lemma locator_cell_step:
  "locator_cell ws r c (hasTime, dayCount)
   = (hasTime \<or> time_cell ws r c, dayCount + (if weekday_cell ws r c then 1 else 0))"
  by (cases "cell_text ws r c") (auto simp: locator_cell_def time_cell_def weekday_cell_def)

lemma locator_cols:
  "fold (locator_cell ws r) cols (hasTime, dayCount)
   = (hasTime \<or> list_ex (time_cell ws r) cols,
      dayCount + int (length (filter (weekday_cell ws r) cols)))"
proof (induction cols arbitrary: hasTime dayCount)
  case Nil
  show ?case by simp
next
  case (Cons c cols)
  show ?case by (simp add: locator_cell_step Cons)
qed

lemma locator_row_qualifies: "locator_row ws r = row_qualifies ws r"
  by (simp add: locator_row_def row_qualifies_def Let_def locator_cols)

lemma sheet_matches_qualifies: "sheet_matches ws = sheet_qualifies ws"
  by (simp add: sheet_matches_def sheet_qualifies_def Let_def locator_row_qualifies [abs_def])

lemma locate_in_find:
  assumes "\<forall>n\<in>set names. sheets n \<noteq> None"
  shows "locate_in sheets names
         = Inr (find (\<lambda>n. case sheets n of None \<Rightarrow> False | Some ws \<Rightarrow> sheet_qualifies ws) names)"
  using assms by (induction names) (auto simp: sheet_matches_qualifies)

text \<open>
  C2, amended: for a workbook with at least one sheet (each name with its sheet),
  SheetLocator returns the name of the first sheet, in workbook order, in which some row
  of the window holds a time label and at least three cells with a weekday name; when no
  sheet is such, it returns the first name. It does not fail.
\<close>

theorem findTimetableSheet_first_qualifying:
  assumes "SheetNames wb \<noteq> []" "\<forall>n\<in>set (SheetNames wb). Sheets wb n \<noteq> None"
  shows "findTimetableSheet wb = Inr (first_qualifying sheet_qualifies wb)
       \<and> first_qualifying sheet_qualifies wb \<noteq> None"
  using assms(1) locate_in_find [OF assms(2)]
  by (auto simp: findTimetableSheet_def first_qualifying_def split: option.splits list.splits)

text \<open>
  C2, as stated: a sheet qualifies when its window holds a time label and at least three
  different weekday names. In the first sample workbook the first sheet is such, with the
  label and the names in different rows, and the code passes it over for the second. In
  the second sample workbook no sheet is such, so the first name would be returned, and
  the code returns the second, whose header row names one weekday in three cells.
\<close>

theorem findTimetableSheet_not_window_wide:
  "findTimetableSheet split_workbook = Inr (Some ''Sheet2'')
   \<and> first_qualifying window_qualifies split_workbook = Some ''Sheet1''
   \<and> findTimetableSheet repeat_workbook = Inr (Some ''Sheet2'')
   \<and> first_qualifying window_qualifies repeat_workbook = Some ''Sheet1''"
proof -
  have "findTimetableSheet split_workbook = Inr (Some ''Sheet2'')" by code_simp
  moreover have "first_qualifying window_qualifies split_workbook = Some ''Sheet1''" by code_simp
  moreover have "findTimetableSheet repeat_workbook = Inr (Some ''Sheet2'')" by code_simp
  moreover have "first_qualifying window_qualifies repeat_workbook = Some ''Sheet1''" by code_simp
  ultimately show ?thesis by blast
qed

theorem findTimetableSheet_first_qualifying_witness:
  "findTimetableSheet split_workbook = Inr (Some ''Sheet2'')
   \<and> first_qualifying sheet_qualifies split_workbook = Some ''Sheet2''"
proof -
  have a: "SheetNames split_workbook \<noteq> []" by (simp add: split_workbook_def)
  have b: "\<forall>n\<in>set (SheetNames split_workbook). Sheets split_workbook n \<noteq> None"
    by (simp add: split_workbook_def)
  have c: "first_qualifying sheet_qualifies split_workbook = Some ''Sheet2''" by code_simp
  from findTimetableSheet_first_qualifying [OF a b] c show ?thesis by simp
qed

section \<open>Runs with different identifiers\<close>

lemma session_lines_ids:
  assumes "\<forall>k. (u1 k = None) = (u2 k = None)" "map erase_id acc1 = map erase_id acc2"
  shows "fst (session_lines u1 d t lines (k, acc1)) = fst (session_lines u2 d t lines (k, acc2))
       \<and> map_sum id (map erase_id) (snd (session_lines u1 d t lines (k, acc1)))
         = map_sum id (map erase_id) (snd (session_lines u2 d t lines (k, acc2)))"
  using assms(2)
proof (induction lines arbitrary: k acc1 acc2)
  case Nil
  then show ?case by simp
next
  case (Cons line lines)
  show ?case
  proof (cases "parseSessionLine (trim line)")
    case None
    with Cons show ?thesis by simp
  next
    case (Some parsed)
    show ?thesis
    proof (cases "u1 k")
      case None
      with assms(1) [rule_format, of k] have "u2 k = None" by simp
      with None Some show ?thesis by simp
    next
      case (Some i1)
      with assms(1) [rule_format, of k] obtain i2 where i2: "u2 k = Some i2"
        by (cases "u2 k") auto
      let ?mk = "\<lambda>i. \<lparr>id_token = i, day = d, start_time = t, duration_slots = 1,
                           Session.subject_name = ParsedCell.subject_name parsed,
                           Session.session_type = ParsedCell.session_type parsed,
                           room = room_or_code parsed,
                           Session.lecturer = ParsedCell.lecturer parsed,
                           Session.groups = ParsedCell.groups parsed,
                           notes = [], attendance_marked = None\<rparr>"
      have "erase_id (?mk i1) = erase_id (?mk i2)" by (simp add: erase_id_def)
      with Cons.prems have "map erase_id (acc1 @ [?mk i1]) = map erase_id (acc2 @ [?mk i2])"
        by simp
      from Cons.IH [OF this, of "Suc k"] Some i2 \<open>parseSessionLine (trim line) = Some parsed\<close>
      show ?thesis by simp
    qed
  qed
qed

lemma parseSessionCell_ids:
  assumes "\<forall>k. (u1 k = None) = (u2 k = None)"
  shows "fst (parseSessionCell u1 k cellContent d t) = fst (parseSessionCell u2 k cellContent d t)
       \<and> map_sum id (map erase_id) (snd (parseSessionCell u1 k cellContent d t))
         = map_sum id (map erase_id) (snd (parseSessionCell u2 k cellContent d t))"
  using session_lines_ids [OF assms, of "[]" "[]"] by (simp add: parseSessionCell_def)

lemma day_cell_ids:
  assumes "\<forall>k. (u1 k = None) = (u2 k = None)" "same_but_ids st1 st2"
  shows "same_but_ids (day_cell u1 ws r t dc st1) (day_cell u2 ws r t dc st2)"
proof -
  obtain d c where dc: "dc = (d, c)" by (cases dc)
  obtain k acc1 unp where st1: "st1 = (k, acc1, unp)" by (cases st1)
  with assms(2) obtain acc2 where st2: "st2 = (k, acc2, unp)"
    and acc: "map erase_id acc1 = map erase_id acc2"
    by (cases st2) (auto simp: same_but_ids_def)
  show ?thesis
  proof (cases "cell ws r c")
    case None
    with dc st1 st2 acc show ?thesis by (simp add: day_cell_def same_but_ids_def)
  next
    case (Some v)
    show ?thesis
    proof (cases "truthy v \<and> trim (value_toString v) \<noteq> []")
      case False
      with Some dc st1 st2 acc show ?thesis by (auto simp: day_cell_def same_but_ids_def Let_def)
    next
      case True
      obtain k1 r1 where p1: "parseSessionCell u1 k (trim (value_toString v)) d t = (k1, r1)"
        by (cases "parseSessionCell u1 k (trim (value_toString v)) d t")
      obtain k2 r2 where p2: "parseSessionCell u2 k (trim (value_toString v)) d t = (k2, r2)"
        by (cases "parseSessionCell u2 k (trim (value_toString v)) d t")
      from parseSessionCell_ids [OF assms(1), of k "trim (value_toString v)" d t] p1 p2
      have k: "k1 = k2" and r: "map_sum id (map erase_id) r1 = map_sum id (map erase_id) r2"
        by simp_all
      show ?thesis
      proof (cases r1)
        case (Inl e)
        with r have "r2 = Inl e" by (cases r2) simp_all
        with Inl Some True dc st1 st2 acc p1 p2 k show ?thesis
          by (simp add: day_cell_def same_but_ids_def Let_def)
      next
        case (Inr out1)
        with r obtain out2 where "r2 = Inr out2" "map erase_id out1 = map erase_id out2"
          by (cases r2) simp_all
        with Inr Some True dc st1 st2 acc p1 p2 k show ?thesis
          by (simp add: day_cell_def same_but_ids_def Let_def)
      qed
    qed
  qed
qed

lemma day_cells_ids:
  assumes "\<forall>k. (u1 k = None) = (u2 k = None)" "same_but_ids st1 st2"
  shows "same_but_ids (fold (day_cell u1 ws r t) dcs st1) (fold (day_cell u2 ws r t) dcs st2)"
  using assms(2)
proof (induction dcs arbitrary: st1 st2)
  case Nil
  then show ?case by simp
next
  case (Cons dc dcs)
  from Cons.IH [OF day_cell_ids [OF assms(1) Cons.prems, of ws r t dc]] show ?case by simp
qed

lemma walk_row_ids:
  assumes "\<forall>k. (u1 k = None) = (u2 k = None)" "same_but_ids st1 st2"
  shows "same_but_ids (walk_row u1 ws tc dcs r st1) (walk_row u2 ws tc dcs r st2)"
  using assms(2) day_cells_ids [OF assms, of ws r _ dcs]
  by (simp add: walk_row_def split: option.splits)

lemma walk_rows_ids:
  assumes "\<forall>k. (u1 k = None) = (u2 k = None)" "same_but_ids st1 st2"
  shows "same_but_ids (fold (walk_row u1 ws tc dcs) rows st1) (fold (walk_row u2 ws tc dcs) rows st2)"
  using assms(2)
proof (induction rows arbitrary: st1 st2)
  case Nil
  then show ?case by simp
next
  case (Cons r rows)
  from Cons.IH [OF walk_row_ids [OF assms(1) Cons.prems, of ws tc dcs r]] show ?case by simp
qed

text \<open>
  C7, amended: two runs on the same grid whose identifier requests fail at the same calls
  (in particular two runs in which none fails) end alike, and their previews agree in
  everything but the identifiers of the sessions.
\<close>

theorem runs_agree_up_to_ids:
  assumes "\<forall>k. (u1 k = None) = (u2 k = None)"
  shows "map_sum id erase_ids (parseWorksheet u1 ws) = map_sum id erase_ids (parseWorksheet u2 ws)"
proof -
  let ?h = "find_header ws"
  let ?rows = "[headerRow ?h + 1 .. e_r (sheet_range ws)]"
  have "same_but_ids (0, [], []) (0, [], [])" by (simp add: same_but_ids_def)
  from walk_rows_ids [OF assms this, of ws "timeCol ?h" "dayCols ?h" ?rows]
  show ?thesis
    by (auto simp: parseWorksheet_def Let_def same_but_ids_def erase_ids_def split: prod.splits)
qed

lemma one_day_result_prefixed:
  "parseWorksheet ids_prefixed one_day_sheet
   = Inr \<lparr>sessions = [\<lparr>id_token = ''id-0'', day = ''Monday'', start_time = ''09:00'', duration_slots = 1,
                          Session.subject_name = ''Math'', session_type = [], room = [], lecturer = [],
                          groups = [], notes = [], attendance_marked = None\<rparr>],
           unparsedCells = [],
           metadata = \<lparr>totalCells = 1, parsedCells = 1, confidence = High\<rparr>\<rparr>"
  by code_simp

text \<open>
  C7, as stated: two runs on the same grid give the same preview, identifiers included.
  With two generators that return different identifiers the previews differ.
\<close>

theorem runs_differ_in_ids:
  "parseWorksheet ids_decimal one_day_sheet \<noteq> parseWorksheet ids_prefixed one_day_sheet"
  by (simp add: one_day_result one_day_result_prefixed)

theorem runs_agree_up_to_ids_witness:
  "map_sum id erase_ids (parseWorksheet ids_decimal one_day_sheet)
   = map_sum id erase_ids (parseWorksheet ids_prefixed one_day_sheet)
   \<and> ids_decimal 0 \<noteq> ids_prefixed 0"
proof -
  have "\<forall>k. (ids_decimal k = None) = (ids_prefixed k = None)"
    by (simp add: ids_decimal_def ids_prefixed_def)
  from runs_agree_up_to_ids [OF this, of one_day_sheet]
  have "map_sum id erase_ids (parseWorksheet ids_decimal one_day_sheet)
        = map_sum id erase_ids (parseWorksheet ids_prefixed one_day_sheet)" .
  moreover have "ids_decimal 0 \<noteq> ids_prefixed 0"
    by (simp add: ids_decimal_def ids_prefixed_def)
  ultimately show ?thesis by blast
qed

section \<open>Cells whose parsing throws\<close>

lemma run_visits_append:
  "run_visits u k (xs @ ys)
   = (case run_visits u k xs of
        (k1, o1) \<Rightarrow> (case run_visits u k1 ys of (k2, o2) \<Rightarrow> (k2, o1 @ o2)))"
  by (induction xs arbitrary: k) (auto split: prod.splits)

lemma unparsed_of_append: "unparsed_of (xs @ ys) = unparsed_of xs @ unparsed_of ys"
  by (simp add: unparsed_of_def)

lemma sessions_of_append: "sessions_of (xs @ ys) = sessions_of xs @ sessions_of ys"
  by (simp add: sessions_of_def)

lemma day_cell_visits:
  "day_cell u ws r t dc (k, acc, unp)
   = (case run_visits u k (cell_visit ws r t dc) of
        (k', outs) \<Rightarrow> (k', acc @ sessions_of outs, unp @ unparsed_of outs))"
  by (cases dc)
     (auto simp: day_cell_def cell_visit_def Let_def unparsed_of_def sessions_of_def
           split: option.splits prod.splits sum.splits)

lemma day_cells_visits:
  "fold (day_cell u ws r t) dcs (k, acc, unp)
   = (case run_visits u k (concat (map (cell_visit ws r t) dcs)) of
        (k', outs) \<Rightarrow> (k', acc @ sessions_of outs, unp @ unparsed_of outs))"
proof (induction dcs arbitrary: k acc unp)
  case Nil
  show ?case by (simp add: sessions_of_def unparsed_of_def)
next
  case (Cons dc dcs)
  obtain k1 o1 where one: "run_visits u k (cell_visit ws r t dc) = (k1, o1)"
    by (cases "run_visits u k (cell_visit ws r t dc)")
  obtain k2 o2 where rest: "run_visits u k1 (concat (map (cell_visit ws r t) dcs)) = (k2, o2)"
    by (cases "run_visits u k1 (concat (map (cell_visit ws r t) dcs))")
  have "fold (day_cell u ws r t) (dc # dcs) (k, acc, unp)
        = fold (day_cell u ws r t) dcs (k1, acc @ sessions_of o1, unp @ unparsed_of o1)"
    using day_cell_visits [of u ws r t dc k acc unp] one by simp
  also have "\<dots> = (k2, (acc @ sessions_of o1) @ sessions_of o2, (unp @ unparsed_of o1) @ unparsed_of o2)"
    using Cons [of k1 "acc @ sessions_of o1" "unp @ unparsed_of o1"] rest by simp
  finally show ?case
    using one rest by (simp add: run_visits_append sessions_of_append unparsed_of_append)
qed

lemma walk_row_visits:
  "walk_row u ws tc dcs r (k, acc, unp)
   = (case run_visits u k (row_visits ws tc dcs r) of
        (k', outs) \<Rightarrow> (k', acc @ sessions_of outs, unp @ unparsed_of outs))"
proof (cases "cell ws r tc")
  case None
  then show ?thesis by (simp add: walk_row_def row_visits_def sessions_of_def unparsed_of_def)
next
  case (Some v)
  show ?thesis
  proof (cases "normalizeTime (value_toString v)")
    case None
    with Some show ?thesis
      by (simp add: walk_row_def row_visits_def sessions_of_def unparsed_of_def)
  next
    case (Some t)
    with \<open>cell ws r tc = Some v\<close> day_cells_visits [of u ws r t dcs k acc unp]
    show ?thesis
      by (simp add: walk_row_def row_visits_def sessions_of_def unparsed_of_def)
  qed
qed

lemma walk_rows_visits:
  "fold (walk_row u ws tc dcs) rows (k, acc, unp)
   = (case run_visits u k (concat (map (row_visits ws tc dcs) rows)) of
        (k', outs) \<Rightarrow> (k', acc @ sessions_of outs, unp @ unparsed_of outs))"
proof (induction rows arbitrary: k acc unp)
  case Nil
  show ?case by (simp add: sessions_of_def unparsed_of_def)
next
  case (Cons r rows)
  obtain k1 o1 where one: "run_visits u k (row_visits ws tc dcs r) = (k1, o1)"
    by (cases "run_visits u k (row_visits ws tc dcs r)")
  obtain k2 o2 where rest: "run_visits u k1 (concat (map (row_visits ws tc dcs) rows)) = (k2, o2)"
    by (cases "run_visits u k1 (concat (map (row_visits ws tc dcs) rows))")
  have "fold (walk_row u ws tc dcs) (r # rows) (k, acc, unp)
        = fold (walk_row u ws tc dcs) rows (k1, acc @ sessions_of o1, unp @ unparsed_of o1)"
    using walk_row_visits [of u ws tc dcs r k acc unp] one by simp
  also have "\<dots> = (k2, (acc @ sessions_of o1) @ sessions_of o2, (unp @ unparsed_of o1) @ unparsed_of o2)"
    using Cons [of k1 "acc @ sessions_of o1" "unp @ unparsed_of o1"] rest by simp
  finally show ?case
    using one rest by (simp add: run_visits_append sessions_of_append unparsed_of_append)
qed

lemma cell_visit_key:
  assumes "v \<in> set (cell_visit ws r t dc)"
  shows "v_row v = r \<and> v_col v = snd dc"
  using assms by (cases dc) (auto simp: cell_visit_def split: option.splits if_splits)

lemma cell_visit_distinct: "distinct (map (\<lambda>v. (v_row v, v_col v)) (cell_visit ws r t dc))"
  by (cases dc) (auto simp: cell_visit_def split: option.splits)

lemma cell_visits_distinct:
  assumes "distinct (map snd dcs)"
  shows "distinct (map (\<lambda>v. (v_row v, v_col v)) (concat (map (cell_visit ws r t) dcs)))"
  using assms
proof (induction dcs)
  case Nil
  show ?case by simp
next
  case (Cons dc dcs)
  have rest: "\<forall>v\<in>set (concat (map (cell_visit ws r t) dcs)). v_col v \<in> snd ` set dcs"
  proof
    fix v
    assume "v \<in> set (concat (map (cell_visit ws r t) dcs))"
    then obtain dc' where dc': "dc' \<in> set dcs" "v \<in> set (cell_visit ws r t dc')" by auto
    from cell_visit_key [OF dc'(2)] dc'(1) show "v_col v \<in> snd ` set dcs" by simp
  qed
  have one: "\<forall>v\<in>set (cell_visit ws r t dc). v_col v = snd dc"
    using cell_visit_key by blast
  from Cons.prems have "snd dc \<notin> snd ` set dcs" by simp
  with rest one
  have "(\<lambda>v. (v_row v, v_col v)) ` set (cell_visit ws r t dc)
        \<inter> (\<lambda>v. (v_row v, v_col v)) ` set (concat (map (cell_visit ws r t) dcs)) = {}"
    by force
  with Cons cell_visit_distinct [of ws r t dc] show ?case by simp
qed

lemma row_visits_row:
  assumes "v \<in> set (row_visits ws tc dcs r)"
  shows "v_row v = r"
proof -
  from assms obtain t dc where "v \<in> set (cell_visit ws r t dc)"
    by (auto simp: row_visits_def split: option.splits if_splits)
  from cell_visit_key [OF this] show ?thesis by simp
qed

lemma row_visits_distinct:
  assumes "distinct (map snd dcs)"
  shows "distinct (map (\<lambda>v. (v_row v, v_col v)) (row_visits ws tc dcs r))"
  using cell_visits_distinct [OF assms]
  by (simp add: row_visits_def split: option.splits)

lemma rows_visits_distinct:
  assumes "distinct rows" "distinct (map snd dcs)"
  shows "distinct (map (\<lambda>v. (v_row v, v_col v)) (concat (map (row_visits ws tc dcs) rows)))"
  using assms(1)
proof (induction rows)
  case Nil
  show ?case by simp
next
  case (Cons r rows)
  have rest: "\<forall>v\<in>set (concat (map (row_visits ws tc dcs) rows)). v_row v \<in> set rows"
  proof
    fix v
    assume "v \<in> set (concat (map (row_visits ws tc dcs) rows))"
    then obtain r' where r': "r' \<in> set rows" "v \<in> set (row_visits ws tc dcs r')" by auto
    from row_visits_row [OF r'(2)] r'(1) show "v_row v \<in> set rows" by simp
  qed
  have one: "\<forall>v\<in>set (row_visits ws tc dcs r). v_row v = r"
    using row_visits_row by blast
  from Cons.prems have "r \<notin> set rows" by simp
  with rest one
  have "(\<lambda>v. (v_row v, v_col v)) ` set (row_visits ws tc dcs r)
        \<inter> (\<lambda>v. (v_row v, v_col v)) ` set (concat (map (row_visits ws tc dcs) rows)) = {}"
    by force
  with Cons row_visits_distinct [OF assms(2), of ws tc r] show ?case by simp
qed

text \<open>
  C5, amended: the unparsed cells of a preview are one entry for each visit of a cell
  whose parsing threw, with the row and the column of the cell counted from 1 and its
  trimmed text, and the sessions of a preview are those of the visits that did not throw:
  a visit that throws adds no session, whichever of its lines had parsed before, and
  every other visit is made and counts as usual. When no two weekdays share a column, no
  cell is visited twice, so a cell whose parsing throws has exactly one entry.
\<close>

theorem preview_of_cell_visits:
  assumes "parseWorksheet uuidv4 ws = Inr p"
  shows "unparsedCells p = unparsed_of (outcomes uuidv4 (visits ws))
       \<and> sessions p = sessions_of (outcomes uuidv4 (visits ws))
       \<and> (distinct (map snd (dayCols (find_header ws)))
            \<longrightarrow> distinct (map (\<lambda>v. (v_row v, v_col v)) (visits ws)))"
proof -
  let ?h = "find_header ws"
  let ?rows = "[headerRow ?h + 1 .. e_r (sheet_range ws)]"
  obtain k outs where run: "run_visits uuidv4 0 (visits ws) = (k, outs)"
    by (cases "run_visits uuidv4 0 (visits ws)")
  then have walk: "fold (walk_row uuidv4 ws (timeCol ?h) (dayCols ?h)) ?rows (0, [], [])
                   = (k, sessions_of outs, unparsed_of outs)"
    using walk_rows_visits [of uuidv4 ws "timeCol ?h" "dayCols ?h" ?rows 0 "[]" "[]"]
    by (simp add: visits_def Let_def)
  from run have outs: "outcomes uuidv4 (visits ws) = outs" by (simp add: outcomes_def)
  from assms walk have "unparsedCells p = unparsed_of outs" "sessions p = sessions_of outs"
    by (auto simp: parseWorksheet_def Let_def split: if_splits)
  moreover have "distinct (map snd (dayCols ?h))
                 \<longrightarrow> distinct (map (\<lambda>v. (v_row v, v_col v)) (visits ws))"
    using rows_visits_distinct [of ?rows "dayCols ?h" ws "timeCol ?h"]
    by (simp add: visits_def Let_def)
  ultimately show ?thesis using outs by simp
qed


lemma two_line_columns: "distinct (map snd (dayCols (find_header two_line_sheet)))"
  by code_simp

lemma two_line_result:
  "parseWorksheet ids_fail_second two_line_sheet
   = Inr \<lparr>sessions =
             [\<lparr>id_token = ''2'', day = ''Tuesday'', start_time = ''09:00'', duration_slots = 1,
               Session.subject_name = ''Art'', session_type = [], room = [], lecturer = [],
               groups = [], notes = [], attendance_marked = None\<rparr>,
              \<lparr>id_token = ''3'', day = ''Monday'', start_time = ''10:00'', duration_slots = 1,
               Session.subject_name = ''Music'', session_type = [], room = [], lecturer = [],
               groups = [], notes = [], attendance_marked = None\<rparr>],
           unparsedCells = [\<lparr>row = 2, col = 2, content = ''Math\<newline>Physics''\<rparr>],
           metadata = \<lparr>totalCells = 4, parsedCells = 3, confidence = Medium\<rparr>\<rparr>"
  by code_simp

theorem preview_of_cell_visits_witness:
  "parseWorksheet ids_fail_second two_line_sheet
   = Inr \<lparr>sessions =
             [\<lparr>id_token = ''2'', day = ''Tuesday'', start_time = ''09:00'', duration_slots = 1,
               Session.subject_name = ''Art'', session_type = [], room = [], lecturer = [],
               groups = [], notes = [], attendance_marked = None\<rparr>,
              \<lparr>id_token = ''3'', day = ''Monday'', start_time = ''10:00'', duration_slots = 1,
               Session.subject_name = ''Music'', session_type = [], room = [], lecturer = [],
               groups = [], notes = [], attendance_marked = None\<rparr>],
           unparsedCells = [\<lparr>row = 2, col = 2, content = ''Math\<newline>Physics''\<rparr>],
           metadata = \<lparr>totalCells = 4, parsedCells = 3, confidence = Medium\<rparr>\<rparr>
   \<and> parseSessionLine ''Math'' \<noteq> None
   \<and> unparsed_of (outcomes ids_fail_second (visits two_line_sheet))
       = [\<lparr>row = 2, col = 2, content = ''Math\<newline>Physics''\<rparr>]
   \<and> sessions_of (outcomes ids_fail_second (visits two_line_sheet))
       = [\<lparr>id_token = ''2'', day = ''Tuesday'', start_time = ''09:00'', duration_slots = 1,
           Session.subject_name = ''Art'', session_type = [], room = [], lecturer = [],
           groups = [], notes = [], attendance_marked = None\<rparr>,
          \<lparr>id_token = ''3'', day = ''Monday'', start_time = ''10:00'', duration_slots = 1,
           Session.subject_name = ''Music'', session_type = [], room = [], lecturer = [],
           groups = [], notes = [], attendance_marked = None\<rparr>]
   \<and> distinct (map snd (dayCols (find_header two_line_sheet)))
   \<and> distinct (map (\<lambda>v. (v_row v, v_col v)) (visits two_line_sheet))"
proof -
  have l: "parseSessionLine ''Math'' \<noteq> None" by code_simp
  from preview_of_cell_visits [OF two_line_result] two_line_result two_line_columns l
  show ?thesis by simp
qed

lemma shared_column_always:
  "parseWorksheet ids_fail_always shared_column_sheet
   = Inr \<lparr>sessions = [],
           unparsedCells = [\<lparr>row = 2, col = 2, content = ''Math''\<rparr>,
                            \<lparr>row = 2, col = 2, content = ''Math''\<rparr>],
           metadata = \<lparr>totalCells = 2, parsedCells = 0, confidence = Low\<rparr>\<rparr>"
  by code_simp

lemma shared_column_first:
  "parseWorksheet ids_fail_first shared_column_sheet
   = Inr \<lparr>sessions =
             [\<lparr>id_token = ''1'', day = ''Tuesday'', start_time = ''09:00'', duration_slots = 1,
               Session.subject_name = ''Math'', session_type = [], room = [], lecturer = [],
               groups = [], notes = [], attendance_marked = None\<rparr>],
           unparsedCells = [\<lparr>row = 2, col = 2, content = ''Math''\<rparr>],
           metadata = \<lparr>totalCells = 2, parsedCells = 1, confidence = Low\<rparr>\<rparr>"
  by code_simp

text \<open>
  C5, as stated: a cell whose parsing throws has exactly one entry, with its raw text, and
  none of its lines among the sessions. The entry has the text after \<^verbatim>\<open>trim()\<close>, which
  differs from the raw text of a cell with white space around it. And a cell in a column
  that the header maps to two weekdays is parsed twice: with a generator that always
  throws it has two entries, and with one whose first call throws it has an entry and a
  session.
\<close>

theorem failed_cell_not_as_claimed:
  "cell two_line_sheet 1 1 = Some (VStr '' Math\<newline>Physics '')
   \<and> map_sum id (\<lambda>p. map content (unparsedCells p)) (parseWorksheet ids_fail_second two_line_sheet)
       = Inr [''Math\<newline>Physics'']
   \<and> map_sum id unparsedCells (parseWorksheet ids_fail_always shared_column_sheet)
       = Inr [\<lparr>row = 2, col = 2, content = ''Math''\<rparr>, \<lparr>row = 2, col = 2, content = ''Math''\<rparr>]
   \<and> map_sum id unparsedCells (parseWorksheet ids_fail_first shared_column_sheet)
       = Inr [\<lparr>row = 2, col = 2, content = ''Math''\<rparr>]
   \<and> map_sum id (\<lambda>p. map Session.subject_name (sessions p)) (parseWorksheet ids_fail_first shared_column_sheet)
       = Inr [''Math'']"
proof -
  have "cell two_line_sheet 1 1 = Some (VStr '' Math\<newline>Physics '')"
    by (simp add: two_line_sheet_def grid_def)
  then show ?thesis
    by (simp add: two_line_result shared_column_always shared_column_first)
qed

end
